theory Spec2Isabelle
  imports Complex_Main "HOL-Library.Sublist"
begin

section \<open>Data model of the stage \<open>atm_muons\<close>\<close>

text \<open>
  The stage lives in \<^verbatim>\<open>pisa/stages/background/atm_muons.py\<close>. Python floats are modelled
  by \<^typ>\<open>real\<close> (exact arithmetic: no rounding, no NaN, no infinities), numpy arrays of
  floats by \<^typ>\<open>real list\<close>, Python strings by \<^typ>\<open>string\<close>. Every \<^verbatim>\<open>raise\<close> and every
  failing index or key access is a value \<open>Inl e\<close> of the result type.
\<close>

datatype error = ValueError | IndexError | KeyError | TypeError | ResourceError

text \<open>
  The five parameters of \<^verbatim>\<open>expected_params\<close>. The two quantities are dimensionless, so
  \<^verbatim>\<open>.value.m_as("dimensionless")\<close> is the stored number.
\<close>

record params =
  atm_muon_scale :: real
  delta_gamma_mu_file :: string
  delta_gamma_mu_spline_kind :: string
  delta_gamma_mu_variable :: string
  delta_gamma_mu :: real

text \<open>
  A container is a dictionary from array names to per-event arrays:
  \<^verbatim>\<open>container['weights']\<close>, \<^verbatim>\<open>container['rw_array']\<close>, \<^verbatim>\<open>container['cr_rw_array']\<close> and the
  kinematic variables.
\<close>

type_synonym container = "string \<rightharpoonup> real list"

text \<open>The object returned by \<^verbatim>\<open>interp1d\<close>: calling it at a point gives a value or raises.\<close>

type_synonym curve = "real \<Rightarrow> error + real"

record stage =
  stage_params :: params
  data :: "container list"
  prim_unc_spline :: "curve option"

section \<open>Weight application (\<^verbatim>\<open>apply_function\<close>)\<close>

text \<open>
  \<^verbatim>\<open>np.clip(x, a_min, a_max)\<close> is \<open>minimum(maximum(x, a_min), a_max)\<close>. The upper bound is
  \<open>None\<close> for \<^verbatim>\<open>np.inf\<close>, which the reals do not have.
\<close>

definition clip :: "real \<Rightarrow> real \<Rightarrow> real option \<Rightarrow> real" where
  "clip x a_min a_max =
     (case a_max of None \<Rightarrow> max x a_min | Some hi \<Rightarrow> min (max x a_min) hi)"

text \<open>
  \<^verbatim>\<open>a *= b\<close> on one-dimensional arrays: elementwise when the lengths agree, \<open>b\<close> broadcast
  when it has exactly one element, and a \<^verbatim>\<open>ValueError\<close> otherwise (the operand cannot be
  broadcast to the shape of \<open>a\<close>).
\<close>

definition imul :: "real list \<Rightarrow> real list \<Rightarrow> error + real list" where
  "imul a b =
     (if length b = length a then Inr (map2 (*) a b)
      else if length b = 1 then Inr (map (\<lambda>x. x * hd b) a)
      else Inl ValueError)"

text \<open>The clamped factor of one event, lines 100-101.\<close>

definition weight_factor :: "params \<Rightarrow> real \<Rightarrow> real" where
  "weight_factor p cr =
     (let cr_rw_scale = delta_gamma_mu p;
          weight_mod = 1 + (cr_rw_scale * cr)
      in clip (weight_mod * atm_muon_scale p) 0 None)"

text \<open>The body of the loop of \<^verbatim>\<open>apply_function\<close> for one container.\<close>

definition apply_container :: "params \<Rightarrow> container \<Rightarrow> error + container" where
  "apply_container p c =
     (case c ''cr_rw_array'' of
        None \<Rightarrow> Inl KeyError
      | Some cr \<Rightarrow>
          (case c ''weights'' of
             None \<Rightarrow> Inl KeyError
           | Some w \<Rightarrow>
               (case imul w (map (weight_factor p) cr) of
                  Inl e \<Rightarrow> Inl e
                | Inr w' \<Rightarrow> Inr (c(''weights'' \<mapsto> w')))))"

text \<open>\<^verbatim>\<open>for container in self.data\<close>: the first exception ends the loop.\<close>

fun apply_containers :: "params \<Rightarrow> container list \<Rightarrow> error + container list" where
  "apply_containers p [] = Inr []"
| "apply_containers p (c # cs) =
     (case apply_container p c of
        Inl e \<Rightarrow> Inl e
      | Inr c' \<Rightarrow>
          (case apply_containers p cs of
             Inl e \<Rightarrow> Inl e
           | Inr cs' \<Rightarrow> Inr (c' # cs')))"

definition apply_function :: "stage \<Rightarrow> error + stage" where
  "apply_function s =
     (case apply_containers (stage_params s) (data s) of
        Inl e \<Rightarrow> Inl e
      | Inr cs \<Rightarrow> Inr (s\<lparr>data := cs\<rparr>))"

text \<open>
  A batch is ready for weight application when setup has cached \<^verbatim>\<open>cr_rw_array\<close> and the
  batch carries one weight per event.
\<close>

definition batch_ready :: "container \<Rightarrow> bool" where
  "batch_ready c =
     (case (c ''weights'', c ''cr_rw_array'') of
        (Some w, Some cr) \<Rightarrow> length w = length cr
      | _ \<Rightarrow> False)"

section \<open>Curve construction (\<^verbatim>\<open>_make_prim_unc_spline\<close>)\<close>

subsection \<open>Validation of the configured names\<close>

text \<open>
  \<^verbatim>\<open>s.split(sep)\<close> for a non-empty separator: the string is scanned from the left, every
  occurrence found ends a piece and the scan goes on after it. The source only splits at
  \<^verbatim>\<open>'true_'\<close>.
\<close>

fun split_str :: "string \<Rightarrow> string \<Rightarrow> string list" where
  "split_str sep [] = [[]]"
| "split_str sep (c # cs) =
     (if prefix sep (c # cs) then [] # split_str sep (drop (length sep - 1) cs)
      else (let pieces = split_str sep cs in (c # hd pieces) # tl pieces))"

text \<open>Line 128: \<^verbatim>\<open>value.split('true_')[-1]\<close>.\<close>

definition bare_variable :: "string \<Rightarrow> string" where
  "bare_variable v = last (split_str ''true_'' v)"

text \<open>
  The reading of the specification, for comparison: a single leading \<^verbatim>\<open>true_\<close> marker is
  stripped, and nothing else.
\<close>

definition strip_leading_prefix :: "string \<Rightarrow> string" where
  "strip_leading_prefix v = (if prefix ''true_'' v then drop 5 v else v)"

subsection \<open>Zero entries of the table\<close>

text \<open>
  Lines 153-156. \<^verbatim>\<open>np.where(uncdata[1] == 0)[0]\<close> is the ascending list of the indices of
  the zero entries, taken once per pass; the inner loop then overwrites the array in place,
  reading the entry after each of these indices from the array as it is at that moment. An
  index past the end raises \<^verbatim>\<open>IndexError\<close>.
\<close>

definition zero_indices :: "real list \<Rightarrow> nat list" where
  "zero_indices ys = filter (\<lambda>i. ys ! i = 0) [0..<length ys]"

fun fill_zeros :: "nat list \<Rightarrow> real list \<Rightarrow> error + real list" where
  "fill_zeros [] ys = Inr ys"
| "fill_zeros (zero_index # rest) ys =
     (if zero_index + 1 < length ys
      then fill_zeros rest (ys[zero_index := ys ! (zero_index + 1)])
      else Inl IndexError)"

text \<open>
  A pass keeps the length, reads in range at every index it visits, and, the indices being
  ascending, reads each right neighbour before anything has overwritten it. So a pass that
  ends without error leaves strictly fewer zeros, which is why the \<^verbatim>\<open>while\<close> loop ends.
\<close>

lemma fill_zeros_length:
  "fill_zeros is ys = Inr zs \<Longrightarrow> length zs = length ys"
  by (induction "is" arbitrary: ys) (auto split: if_splits)

lemma fill_zeros_bound:
  "fill_zeros is ys = Inr zs \<Longrightarrow> i \<in> set is \<Longrightarrow> i + 1 < length ys"
proof (induction "is" arbitrary: ys)
  case Nil
  then show ?case by simp
next
  case (Cons k rest)
  from Cons.prems(1) have bound: "k + 1 < length ys"
    and run: "fill_zeros rest (ys[k := ys ! (k + 1)]) = Inr zs"
    by (auto split: if_splits)
  show ?case
  proof (cases "i = k")
    case True
    then show ?thesis using bound by simp
  next
    case False
    then have "i \<in> set rest" using Cons.prems(2) by simp
    from Cons.IH [OF run this] show ?thesis by simp
  qed
qed

lemma fill_zeros_nth:
  "fill_zeros is ys = Inr zs \<Longrightarrow> sorted_wrt (<) is \<Longrightarrow> j < length ys \<Longrightarrow>
   zs ! j = (if j \<in> set is then ys ! (j + 1) else ys ! j)"
proof (induction "is" arbitrary: ys)
  case Nil
  then show ?case by simp
next
  case (Cons i rest)
  let ?ys1 = "ys[i := ys ! (i + 1)]"
  from Cons.prems(1) have bound: "i + 1 < length ys" and run: "fill_zeros rest ?ys1 = Inr zs"
    by (auto split: if_splits)
  from Cons.prems(2) have later: "\<forall>k \<in> set rest. i < k" and srt: "sorted_wrt (<) rest"
    by auto
  have step: "zs ! j = (if j \<in> set rest then ?ys1 ! (j + 1) else ?ys1 ! j)"
    using Cons.IH [OF run srt] Cons.prems(3) by simp
  show ?case
  proof (cases "j \<in> set rest")
    case True
    then have "i < j" using later by blast
    then show ?thesis using step True by simp
  next
    case False
    then show ?thesis using step bound by (cases "j = i") auto
  qed
qed

lemma zero_indices_sorted: "sorted_wrt (<) (zero_indices ys)"
  unfolding zero_indices_def by (simp add: sorted_wrt_filter)

lemma zero_indices_set: "set (zero_indices ys) = {i. i < length ys \<and> ys ! i = 0}"
  unfolding zero_indices_def by auto

definition zero_count :: "real list \<Rightarrow> nat" where
  "zero_count ys = card {i. i < length ys \<and> ys ! i = 0}"

lemma fill_pass_nth:
  assumes "fill_zeros (zero_indices ys) ys = Inr zs" "j < length ys"
  shows "zs ! j = (if ys ! j = 0 then ys ! (j + 1) else ys ! j)"
  using fill_zeros_nth [OF assms(1) zero_indices_sorted assms(2)] assms(2)
  by (simp add: zero_indices_set)

lemma fill_pass_decreases:
  assumes run: "fill_zeros (zero_indices ys) ys = Inr zs" and z: "0 \<in> set ys"
  shows "zero_count zs < zero_count ys"
proof -
  let ?Z = "{i. i < length ys \<and> ys ! i = 0}"
  let ?Z' = "{i. i < length zs \<and> zs ! i = 0}"
  have len: "length zs = length ys" using run by (rule fill_zeros_length)
  have fin: "finite ?Z" by simp
  have ne: "?Z \<noteq> {}" using z by (auto simp: in_set_conv_nth)
  define m where "m = Max ?Z"
  have m_in: "m \<in> ?Z" unfolding m_def using fin ne by (rule Max_in)
  have m_max: "\<And>i. i \<in> ?Z \<Longrightarrow> i \<le> m" unfolding m_def using fin by simp
  have "m \<in> set (zero_indices ys)" using m_in by (simp add: zero_indices_set)
  then have mb: "m + 1 < length ys" using run fill_zeros_bound by blast
  have "ys ! (m + 1) \<noteq> 0"
  proof
    assume "ys ! (m + 1) = 0"
    then have "m + 1 \<in> ?Z" using mb by simp
    then have "m + 1 \<le> m" by (rule m_max)
    then show False by simp
  qed
  then have m_out: "m \<notin> ?Z'" using fill_pass_nth [OF run, of m] m_in by simp
  have sub: "?Z' \<subseteq> ?Z"
  proof
    fix i assume "i \<in> ?Z'"
    then have il: "i < length ys" and zi: "zs ! i = 0" using len by auto
    show "i \<in> ?Z" using fill_pass_nth [OF run il] zi il by (auto split: if_splits)
  qed
  have "?Z' \<subset> ?Z" using sub m_in m_out by blast
  then show ?thesis unfolding zero_count_def using fin by (rule psubset_card_mono[rotated])
qed

function sanitize :: "real list \<Rightarrow> error + real list" where
  "sanitize ys =
     (if 0 \<in> set ys
      then (case fill_zeros (zero_indices ys) ys of
              Inl e \<Rightarrow> Inl e
            | Inr ys' \<Rightarrow> sanitize ys')
      else Inr ys)"
  by pat_completeness auto
termination
  by (relation "measure zero_count") (auto simp: fill_pass_decreases)

declare sanitize.simps [simp del]


subsection \<open>Padding and fit\<close>

text \<open>
  Lines 159-162 on \<open>uncdata = (uncdata[0], uncdata[1])\<close>. \<^verbatim>\<open>uncdata[1][0]\<close> raises on an
  empty array.
\<close>

definition pad_table :: "real list \<times> real list \<Rightarrow> error + real list \<times> real list" where
  "pad_table uncdata =
     (case snd uncdata of
        [] \<Rightarrow> Inl IndexError
      | y0 # _ \<Rightarrow>
          Inr (0 # fst uncdata @ [1], y0 # snd uncdata @ [last (snd uncdata)]))"

text \<open>
  Lines 153-162 together, on the rows \<open>(x, y)\<close> that \<^verbatim>\<open>np.genfromtxt\<close> has read: the table
  handed to the interpolation. For two rows or more \<^verbatim>\<open>.T\<close> is the pair of the two columns.
  For a single row \<^verbatim>\<open>np.genfromtxt\<close> gives a one-dimensional array, \<^verbatim>\<open>.T\<close> leaves it as it is,
  \<^verbatim>\<open>uncdata[1]\<close> is a number and the test \<^verbatim>\<open>0.0 in uncdata[1]\<close> of line 153 raises
  \<^verbatim>\<open>TypeError\<close>, whatever the number. For no row at all the result is \<^verbatim>\<open>IndexError\<close>.
\<close>

definition padded_table :: "(real \<times> real) list \<Rightarrow> error + real list \<times> real list" where
  "padded_table rows =
     (if length rows = 1 then Inl TypeError
      else
        (case sanitize (map snd rows) of
           Inl e \<Rightarrow> Inl e
         | Inr ys \<Rightarrow> pad_table (map fst rows, ys)))"

text \<open>
  The two library calls are parameters. \<open>genfromtxt\<close> stands for
  \<^verbatim>\<open>np.genfromtxt(open_resource(file))\<close> and gives the rows \<open>(x, y)\<close> of the file;
  \<open>interp1d xvals yvals kind\<close> stands for the scipy constructor. Lines 145-171: read,
  repair, pad, fit.
\<close>

definition load_and_fit ::
  "(real list \<Rightarrow> real list \<Rightarrow> string \<Rightarrow> error + curve) \<Rightarrow>
   (string \<Rightarrow> error + (real \<times> real) list) \<Rightarrow> params \<Rightarrow> error + curve" where
  "load_and_fit interp1d genfromtxt p =
     (case genfromtxt (delta_gamma_mu_file p) of
        Inl e \<Rightarrow> Inl e
      | Inr rows \<Rightarrow>
          (case padded_table rows of
             Inl e \<Rightarrow> Inl e
           | Inr (xvals, yvals) \<Rightarrow> interp1d xvals yvals (delta_gamma_mu_spline_kind p)))"

text \<open>
  The whole of \<^verbatim>\<open>_make_prim_unc_spline\<close>: the two checks of lines 128-142, then the rest.
  The second component of the result lists the resources that were opened, in order: it is
  empty exactly when a check has raised.
\<close>

definition make_prim_unc_spline ::
  "(real list \<Rightarrow> real list \<Rightarrow> string \<Rightarrow> error + curve) \<Rightarrow>
   (string \<Rightarrow> error + (real \<times> real) list) \<Rightarrow> params \<Rightarrow> (error + curve) \<times> string list" where
  "make_prim_unc_spline interp1d genfromtxt p =
     (if \<not> bare_variable (delta_gamma_mu_variable p) = ''coszen'' then (Inl ValueError, [])
      else if \<not> sublist (bare_variable (delta_gamma_mu_variable p)) (delta_gamma_mu_file p)
      then (Inl ValueError, [])
      else (load_and_fit interp1d genfromtxt p, [delta_gamma_mu_file p]))"

text \<open>
  What every kind of \<^verbatim>\<open>interp1d\<close> promises on strictly increasing \<open>x\<close>: the curve passes
  through the points it was built from.
\<close>

definition knot_exact :: "(real list \<Rightarrow> real list \<Rightarrow> string \<Rightarrow> error + curve) \<Rightarrow> bool" where
  "knot_exact interp1d =
     (\<forall>xvals yvals kind f i.
        interp1d xvals yvals kind = Inr f \<and> length xvals = length yvals \<and>
        sorted_wrt (<) xvals \<and> i < length xvals \<longrightarrow> f (xvals ! i) = Inr (yvals ! i))"

section \<open>Setup (\<^verbatim>\<open>setup_function\<close>)\<close>

text \<open>Calling the curve on an array evaluates it at every entry.\<close>

fun eval_curve :: "curve \<Rightarrow> real list \<Rightarrow> error + real list" where
  "eval_curve f [] = Inr []"
| "eval_curve f (x # xs) =
     (case f x of
        Inl e \<Rightarrow> Inl e
      | Inr y \<Rightarrow> (case eval_curve f xs of Inl e \<Rightarrow> Inl e | Inr ys \<Rightarrow> Inr (y # ys)))"

text \<open>
  \<^verbatim>\<open>a.sum() / a.size\<close>. For the empty array this is \<open>0.0 / 0\<close>, which numpy evaluates to
  \<open>nan\<close> with a warning: there is no number, hence \<open>None\<close>.
\<close>

definition mean :: "real list \<Rightarrow> real option" where
  "mean a = (if length a = 0 then None else Some (sum_list a / real (length a)))"

text \<open>
  Lines 83-84. Subtracting the norm from the empty array gives the empty array, whatever
  the norm.
\<close>

definition centre :: "real list \<Rightarrow> real list" where
  "centre rw_array =
     (case mean rw_array of
        None \<Rightarrow> []
      | Some norm_value \<Rightarrow> map (\<lambda>x. x - norm_value) rw_array)"

text \<open>The body of the loop of \<^verbatim>\<open>setup_function\<close>, lines 79-84.\<close>

definition setup_container :: "curve \<Rightarrow> string \<Rightarrow> container \<Rightarrow> error + container" where
  "setup_container spline rw_variable c =
     (case c rw_variable of
        None \<Rightarrow> Inl KeyError
      | Some v \<Rightarrow>
          (case eval_curve spline v of
             Inl e \<Rightarrow> Inl e
           | Inr rw \<Rightarrow> Inr (c(''rw_array'' \<mapsto> rw, ''cr_rw_array'' \<mapsto> centre rw))))"

fun setup_containers :: "curve \<Rightarrow> string \<Rightarrow> container list \<Rightarrow> error + container list" where
  "setup_containers spline rw_variable [] = Inr []"
| "setup_containers spline rw_variable (c # cs) =
     (case setup_container spline rw_variable c of
        Inl e \<Rightarrow> Inl e
      | Inr c' \<Rightarrow>
          (case setup_containers spline rw_variable cs of
             Inl e \<Rightarrow> Inl e
           | Inr cs' \<Rightarrow> Inr (c' # cs')))"

text \<open>
  \<^verbatim>\<open>setup_function\<close>: the curve is built first, then every container is visited. The
  assignment to \<^verbatim>\<open>self.data.representation\<close> belongs to the framework and is left out.
\<close>

definition setup_function ::
  "(real list \<Rightarrow> real list \<Rightarrow> string \<Rightarrow> error + curve) \<Rightarrow>
   (string \<Rightarrow> error + (real \<times> real) list) \<Rightarrow> stage \<Rightarrow> error + stage" where
  "setup_function interp1d genfromtxt s =
     (case fst (make_prim_unc_spline interp1d genfromtxt (stage_params s)) of
        Inl e \<Rightarrow> Inl e
      | Inr spline \<Rightarrow>
          (case setup_containers spline (delta_gamma_mu_variable (stage_params s)) (data s) of
             Inl e \<Rightarrow> Inl e
           | Inr cs \<Rightarrow> Inr (s\<lparr>data := cs, prim_unc_spline := Some spline\<rparr>)))"

section \<open>Inputs of the scenarios\<close>

subsection \<open>A linear interpolation, a table and a file\<close>

text \<open>
  The piecewise-linear interpolant that \<^verbatim>\<open>interp1d(x, y, kind='linear')\<close> computes for
  strictly increasing \<open>x\<close>, in exact arithmetic: at a point of the segment from
  \<open>(x0, y0)\<close> to \<open>(x1, y1)\<close> the value is \<open>y0 + (y1 - y0) / (x1 - x0) * (x - x0)\<close>, the segment
  of a knot being the one that ends there (the first segment for the first knot), and a
  point outside the range of \<open>x\<close> raises \<^verbatim>\<open>ValueError\<close>. It instantiates the parameter
  \<open>interp1d\<close> in the scenarios; unsorted \<open>x\<close> and the other kinds are not modelled.
\<close>

fun linear_at :: "(real \<times> real) list \<Rightarrow> curve" where
  "linear_at ((x0, y0) # (x1, y1) # rest) x =
     (if x < x0 then Inl ValueError
      else if x \<le> x1 then Inr (y0 + (y1 - y0) / (x1 - x0) * (x - x0))
      else linear_at ((x1, y1) # rest) x)"
| "linear_at [p] x = Inl ValueError"
| "linear_at [] x = Inl ValueError"

definition interp1d_linear :: "real list \<Rightarrow> real list \<Rightarrow> string \<Rightarrow> error + curve" where
  "interp1d_linear xvals yvals kind =
     (if kind = ''linear'' \<and> length xvals = length yvals \<and> 2 \<le> length xvals
      then Inr (linear_at (zip xvals yvals))
      else Inl ValueError)"

text \<open>
  The calibration table of scenario 1, and a resource loader that knows one file, which
  holds this table.
\<close>

definition scenario1_table :: "(real \<times> real) list" where
  "scenario1_table = [(0.1, 2.0), (0.5, 0.0), (0.9, 4.0)]"

text \<open>The curve that scenario 1 leads to.\<close>

definition scenario1_curve :: curve where
  "scenario1_curve = linear_at [(0, 2), (0.1, 2), (0.5, 4), (0.9, 4), (1, 4)]"

text \<open>A table whose last entry is zero, and a table of a single row, which is zero.\<close>

definition one_row_table :: "(real \<times> real) list" where
  "one_row_table = [(0.5, 0.0)]"

definition trailing_zero_table :: "(real \<times> real) list" where
  "trailing_zero_table = [(0.1, 2.0), (0.5, 0.0), (0.9, 0.0)]"

definition scenario_files :: "string \<Rightarrow> error + (real \<times> real) list" where
  "scenario_files file =
     (if file = ''muon_coszen_unc.txt'' then Inr scenario1_table else Inl ResourceError)"

definition scenario_params :: params where
  "scenario_params =
     \<lparr>atm_muon_scale = 1.5, delta_gamma_mu_file = ''muon_coszen_unc.txt'',
      delta_gamma_mu_spline_kind = ''linear'', delta_gamma_mu_variable = ''true_coszen'',
      delta_gamma_mu = 2.0\<rparr>"

text \<open>
  Two stages before setup: one batch with two events, and one batch with no event.
\<close>

definition two_event_stage :: stage where
  "two_event_stage =
     \<lparr>stage_params = scenario_params,
       data = [[''true_coszen'' \<mapsto> [0.3, 0.7], ''weights'' \<mapsto> [1, 1]]],
       prim_unc_spline = None\<rparr>"

definition empty_batch_stage :: stage where
  "empty_batch_stage =
     \<lparr>stage_params = scenario_params,
       data = [[''true_coszen'' \<mapsto> [], ''weights'' \<mapsto> []]],
       prim_unc_spline = None\<rparr>"

subsection \<open>Stages ready for weight application\<close>

text \<open>
  Scenario 4 of the specification: one batch with one event, prior weight \<open>10.0\<close>,
  \<^verbatim>\<open>cr_rw_array = 0.3\<close>, \<^verbatim>\<open>delta_gamma_mu = 2.0\<close>, \<^verbatim>\<open>atm_muon_scale = 1.5\<close>. The second stage
  holds one event with a negative prior weight and neutral parameters. The third is
  scenario 5: \<open>(1 + (- 2/3) * 3) * 0.5 = - 0.5\<close>.
\<close>

definition scenario4_stage :: stage where
  "scenario4_stage =
     \<lparr>stage_params = \<lparr>atm_muon_scale = 1.5, delta_gamma_mu_file = ''muon_coszen_unc.txt'',
         delta_gamma_mu_spline_kind = ''linear'', delta_gamma_mu_variable = ''true_coszen'',
         delta_gamma_mu = 2.0\<rparr>,
       data = [[''weights'' \<mapsto> [10.0], ''cr_rw_array'' \<mapsto> [0.3]]],
       prim_unc_spline = None\<rparr>"

definition negative_weight_stage :: stage where
  "negative_weight_stage =
     \<lparr>stage_params = \<lparr>atm_muon_scale = 1, delta_gamma_mu_file = ''muon_coszen_unc.txt'',
         delta_gamma_mu_spline_kind = ''linear'', delta_gamma_mu_variable = ''true_coszen'',
         delta_gamma_mu = 0\<rparr>,
       data = [[''weights'' \<mapsto> [- 1], ''cr_rw_array'' \<mapsto> [0]]],
       prim_unc_spline = None\<rparr>"

definition scenario5_stage :: stage where
  "scenario5_stage =
     \<lparr>stage_params = \<lparr>atm_muon_scale = 0.5, delta_gamma_mu_file = ''muon_coszen_unc.txt'',
         delta_gamma_mu_spline_kind = ''linear'', delta_gamma_mu_variable = ''true_coszen'',
         delta_gamma_mu = - (2 / 3)\<rparr>,
       data = [[''weights'' \<mapsto> [7], ''cr_rw_array'' \<mapsto> [3]]],
       prim_unc_spline = None\<rparr>"

section \<open>Properties of weight application\<close>

lemma clip_floor: "clip x 0 None = max x 0"
  by (simp add: clip_def)

lemma weight_factor_eq:
  "weight_factor p cr = clip ((1 + delta_gamma_mu p * cr) * atm_muon_scale p) 0 None"
  by (simp add: weight_factor_def Let_def)

lemma apply_container_ready:
  assumes "c ''weights'' = Some w" and "c ''cr_rw_array'' = Some cr"
    and "length w = length cr"
  shows "apply_container p c = Inr (c(''weights'' \<mapsto> map2 (*) w (map (weight_factor p) cr)))"
  using assms by (simp add: apply_container_def imul_def)

lemma batch_readyE:
  assumes "batch_ready c"
  obtains w cr where "c ''weights'' = Some w" and "c ''cr_rw_array'' = Some cr"
    and "length w = length cr"
  using assms by (auto simp: batch_ready_def split: option.splits)

lemma apply_containers_nth:
  "apply_containers p cs = Inr cs' \<Longrightarrow>
   length cs' = length cs \<and> (\<forall>k<length cs. apply_container p (cs ! k) = Inr (cs' ! k))"
proof (induction cs arbitrary: cs')
  case Nil
  then show ?case by simp
next
  case (Cons c cs)
  from Cons.prems obtain c1 cs1 where c1: "apply_container p c = Inr c1"
    and cs1: "apply_containers p cs = Inr cs1" and eq: "cs' = c1 # cs1"
    by (auto split: sum.splits)
  from Cons.IH [OF cs1] c1 eq show ?case
    by (auto simp: nth_Cons split: nat.splits)
qed

lemma apply_containers_ready:
  "\<forall>c\<in>set cs. batch_ready c \<Longrightarrow> \<exists>cs'. apply_containers p cs = Inr cs'"
proof (induction cs)
  case Nil
  then show ?case by simp
next
  case (Cons c cs)
  then obtain cs1 where cs1: "apply_containers p cs = Inr cs1" by auto
  from Cons.prems have "batch_ready c" by simp
  then obtain c1 where "apply_container p c = Inr c1"
    by (auto elim!: batch_readyE dest: apply_container_ready)
  with cs1 show ?case by simp
qed

text \<open>What one application does to a stage whose batches are all ready.\<close>

lemma apply_function_ready:
  assumes ready: "\<forall>c\<in>set (data s). batch_ready c"
  obtains s' where "apply_function s = Inr s'"
    and "stage_params s' = stage_params s"
    and "length (data s') = length (data s)"
    and "\<And>k w cr. k < length (data s) \<Longrightarrow> (data s ! k) ''weights'' = Some w \<Longrightarrow>
           (data s ! k) ''cr_rw_array'' = Some cr \<Longrightarrow>
           length w = length cr \<and>
           data s' ! k =
             (data s ! k)(''weights'' \<mapsto> map2 (*) w (map (weight_factor (stage_params s)) cr))"
proof -
  let ?p = "stage_params s"
  obtain cs' where run: "apply_containers ?p (data s) = Inr cs'"
    using apply_containers_ready [OF ready] by blast
  have len: "length cs' = length (data s)"
    and each: "\<And>k. k < length (data s) \<Longrightarrow> apply_container ?p (data s ! k) = Inr (cs' ! k)"
    using apply_containers_nth [OF run] by auto
  have res: "apply_function s = Inr (s\<lparr>data := cs'\<rparr>)"
    by (simp add: apply_function_def run)
  have step: "length w = length cr \<and>
      data (s\<lparr>data := cs'\<rparr>) ! k = (data s ! k)(''weights'' \<mapsto> map2 (*) w (map (weight_factor ?p) cr))"
    if k: "k < length (data s)" and w: "(data s ! k) ''weights'' = Some w"
      and cr: "(data s ! k) ''cr_rw_array'' = Some cr" for k w cr
  proof -
    have "batch_ready (data s ! k)" using ready k by simp
    then have eq: "length w = length cr" using w cr by (simp add: batch_ready_def)
    then show ?thesis
      using each [OF k] apply_container_ready [OF w cr eq, of ?p] by simp
  qed
  show thesis
    by (rule that [OF res _ _ step]) (simp_all add: len)
qed

lemma apply_function_keeps_ready:
  assumes ready: "\<forall>c\<in>set (data s). batch_ready c" and run: "apply_function s = Inr s'"
  shows "\<forall>c\<in>set (data s'). batch_ready c"
proof -
  from ready obtain s1 where s1: "apply_function s = Inr s1"
    and len: "length (data s1) = length (data s)"
    and each: "\<And>k w cr. k < length (data s) \<Longrightarrow> (data s ! k) ''weights'' = Some w \<Longrightarrow>
           (data s ! k) ''cr_rw_array'' = Some cr \<Longrightarrow>
           length w = length cr \<and>
           data s1 ! k =
             (data s ! k)(''weights'' \<mapsto> map2 (*) w (map (weight_factor (stage_params s)) cr))"
    by (rule apply_function_ready) blast
  have eq: "s1 = s'" using s1 run by simp
  have "batch_ready (data s1 ! k)" if k: "k < length (data s1)" for k
  proof -
    have "batch_ready (data s ! k)" using ready k len by simp
    then obtain w cr where w: "(data s ! k) ''weights'' = Some w"
      and cr: "(data s ! k) ''cr_rw_array'' = Some cr" and l: "length w = length cr"
      by (rule batch_readyE)
    from each [OF _ w cr] k len
    have "data s1 ! k =
        (data s ! k)(''weights'' \<mapsto> map2 (*) w (map (weight_factor (stage_params s)) cr))"
      by simp
    then show ?thesis using cr l by (simp add: batch_ready_def)
  qed
  then show ?thesis unfolding eq [symmetric] by (auto simp: in_set_conv_nth)
qed

text \<open>
  C1: in a stage whose batches are all ready, one weight application succeeds and, in every
  batch, replaces each weight \<open>w ! i\<close> by
  \<open>w ! i * clip ((1 + delta_gamma_mu * cr_rw_array ! i) * atm_muon_scale) 0 +\<infinity>\<close>; in
  scenario 4 the weight \<open>10.0\<close> becomes \<open>24.0\<close>.
\<close>

theorem weight_application_multiplies:
  "(list_all batch_ready (data s) \<longrightarrow>
    (\<exists>s'. apply_function s = Inr s' \<and> length (data s') = length (data s) \<and>
      (\<forall>k<length (data s). \<forall>w cr.
         (data s ! k) ''weights'' = Some w \<and> (data s ! k) ''cr_rw_array'' = Some cr \<longrightarrow>
         (\<exists>w'. (data s' ! k) ''weights'' = Some w' \<and> length w' = length w \<and>
            (\<forall>i<length w. w' ! i =
               w ! i * clip ((1 + delta_gamma_mu (stage_params s) * cr ! i)
                             * atm_muon_scale (stage_params s)) 0 None))))) \<and>
   apply_function scenario4_stage =
     Inr (scenario4_stage\<lparr>data := [[''weights'' \<mapsto> [24.0], ''cr_rw_array'' \<mapsto> [0.3]]]\<rparr>)"
proof (intro conjI impI)
  assume "list_all batch_ready (data s)"
  then have ready: "\<forall>c\<in>set (data s). batch_ready c"
    by (simp add: list_all_iff)
  then obtain s' where run: "apply_function s = Inr s'"
    and len: "length (data s') = length (data s)"
    and each: "\<And>k w cr. k < length (data s) \<Longrightarrow> (data s ! k) ''weights'' = Some w \<Longrightarrow>
           (data s ! k) ''cr_rw_array'' = Some cr \<Longrightarrow>
           length w = length cr \<and>
           data s' ! k =
             (data s ! k)(''weights'' \<mapsto> map2 (*) w (map (weight_factor (stage_params s)) cr))"
    by (rule apply_function_ready) blast
  have "\<exists>w'. (data s' ! k) ''weights'' = Some w' \<and> length w' = length w \<and>
            (\<forall>i<length w. w' ! i =
               w ! i * clip ((1 + delta_gamma_mu (stage_params s) * cr ! i)
                             * atm_muon_scale (stage_params s)) 0 None)"
    if "k < length (data s)" and "(data s ! k) ''weights'' = Some w"
      and "(data s ! k) ''cr_rw_array'' = Some cr" for k w cr
    using each [OF that] by (simp add: weight_factor_eq)
  then show "\<exists>s'. apply_function s = Inr s' \<and> length (data s') = length (data s) \<and>
      (\<forall>k<length (data s). \<forall>w cr.
         (data s ! k) ''weights'' = Some w \<and> (data s ! k) ''cr_rw_array'' = Some cr \<longrightarrow>
         (\<exists>w'. (data s' ! k) ''weights'' = Some w' \<and> length w' = length w \<and>
            (\<forall>i<length w. w' ! i =
               w ! i * clip ((1 + delta_gamma_mu (stage_params s) * cr ! i)
                             * atm_muon_scale (stage_params s)) 0 None)))"
    using run len by blast
next
  show "apply_function scenario4_stage =
     Inr (scenario4_stage\<lparr>data := [[''weights'' \<mapsto> [24.0], ''cr_rw_array'' \<mapsto> [0.3]]]\<rparr>)"
    by (simp add: scenario4_stage_def apply_function_def apply_container_def imul_def
        weight_factor_def clip_def fun_upd_twist)
qed

theorem weight_application_multiplies_witness:
  "list_all batch_ready (data scenario4_stage) \<and>
   (\<exists>s'. apply_function scenario4_stage = Inr s' \<and>
      (\<exists>w'. (data s' ! 0) ''weights'' = Some w' \<and> w' ! 0 = 24))"
proof -
  have ready: "list_all batch_ready (data scenario4_stage)"
    by (simp add: scenario4_stage_def batch_ready_def)
  have w: "(data scenario4_stage ! 0) ''weights'' = Some [10]"
    and cr: "(data scenario4_stage ! 0) ''cr_rw_array'' = Some [0.3]"
    by (simp_all add: scenario4_stage_def)
  from weight_application_multiplies [of scenario4_stage] ready
  obtain s' where run: "apply_function scenario4_stage = Inr s'"
    and each: "\<forall>k<length (data scenario4_stage). \<forall>w cr.
         (data scenario4_stage ! k) ''weights'' = Some w \<and>
         (data scenario4_stage ! k) ''cr_rw_array'' = Some cr \<longrightarrow>
         (\<exists>w'. (data s' ! k) ''weights'' = Some w' \<and> length w' = length w \<and>
            (\<forall>i<length w. w' ! i =
               w ! i * clip ((1 + delta_gamma_mu (stage_params scenario4_stage) * cr ! i)
                             * atm_muon_scale (stage_params scenario4_stage)) 0 None))"
    by blast
  have "0 < length (data scenario4_stage)" by (simp add: scenario4_stage_def)
  with each w cr obtain w' where w': "(data s' ! 0) ''weights'' = Some w'"
    and v: "\<forall>i<length [10::real]. w' ! i =
               [10] ! i * clip ((1 + delta_gamma_mu (stage_params scenario4_stage) * [0.3] ! i)
                             * atm_muon_scale (stage_params scenario4_stage)) 0 None"
    by blast
  from v have "w' ! 0 = 24" by (simp add: scenario4_stage_def clip_def)
  with ready run w' show ?thesis by blast
qed


text \<open>
  C2, as stated, fails: the factor is clamped, not the product. An event with prior weight
  \<open>- 1\<close> and factor \<open>1\<close> (\<^verbatim>\<open>delta_gamma_mu = 0\<close>, \<^verbatim>\<open>atm_muon_scale = 1\<close>) keeps the weight
  \<open>- 1\<close>, which is negative.
\<close>

theorem negative_prior_weight_counterexample:
  "list_all batch_ready (data negative_weight_stage) \<and>
   apply_function negative_weight_stage =
     Inr (negative_weight_stage\<lparr>data := [[''weights'' \<mapsto> [- 1], ''cr_rw_array'' \<mapsto> [0]]]\<rparr>)"
  by (simp add: negative_weight_stage_def batch_ready_def apply_function_def
      apply_container_def imul_def weight_factor_def clip_def fun_upd_twist)

text \<open>
  C2, amended: in a stage whose batches are all ready, one weight application multiplies
  each weight by a factor that is never negative, whatever the signs of
  \<^verbatim>\<open>delta_gamma_mu\<close>, \<^verbatim>\<open>atm_muon_scale\<close> and \<^verbatim>\<open>cr_rw_array[i]\<close>; so a prior weight that is not
  negative stays so. When \<open>(1 + delta_gamma_mu * cr_rw_array[i]) * atm_muon_scale\<close> is
  negative the factor is \<open>0\<close> and the new weight is \<open>0\<close>, whatever the prior weight.
\<close>

theorem weight_application_clamps:
  "list_all batch_ready (data s) \<longrightarrow>
    (\<exists>s'. apply_function s = Inr s' \<and>
      (\<forall>k<length (data s). \<forall>w cr.
         (data s ! k) ''weights'' = Some w \<and> (data s ! k) ''cr_rw_array'' = Some cr \<longrightarrow>
         (\<exists>w'. (data s' ! k) ''weights'' = Some w' \<and> length w' = length w \<and>
            (\<forall>i<length w.
               0 \<le> weight_factor (stage_params s) (cr ! i) \<and>
               w' ! i = w ! i * weight_factor (stage_params s) (cr ! i) \<and>
               (0 \<le> w ! i \<longrightarrow> 0 \<le> w' ! i) \<and>
               ((1 + delta_gamma_mu (stage_params s) * cr ! i) * atm_muon_scale (stage_params s) < 0
                  \<longrightarrow> weight_factor (stage_params s) (cr ! i) = 0 \<and> w' ! i = 0)))))"
proof
  let ?p = "stage_params s"
  assume "list_all batch_ready (data s)"
  then have ready: "\<forall>c\<in>set (data s). batch_ready c"
    by (simp add: list_all_iff)
  then obtain s' where run: "apply_function s = Inr s'"
    and each: "\<And>k w cr. k < length (data s) \<Longrightarrow> (data s ! k) ''weights'' = Some w \<Longrightarrow>
           (data s ! k) ''cr_rw_array'' = Some cr \<Longrightarrow>
           length w = length cr \<and>
           data s' ! k = (data s ! k)(''weights'' \<mapsto> map2 (*) w (map (weight_factor ?p) cr))"
    by (rule apply_function_ready) blast
  have "\<exists>w'. (data s' ! k) ''weights'' = Some w' \<and> length w' = length w \<and>
            (\<forall>i<length w.
               0 \<le> weight_factor ?p (cr ! i) \<and>
               w' ! i = w ! i * weight_factor ?p (cr ! i) \<and>
               (0 \<le> w ! i \<longrightarrow> 0 \<le> w' ! i) \<and>
               ((1 + delta_gamma_mu ?p * cr ! i) * atm_muon_scale ?p < 0
                  \<longrightarrow> weight_factor ?p (cr ! i) = 0 \<and> w' ! i = 0))"
    if "k < length (data s)" and "(data s ! k) ''weights'' = Some w"
      and "(data s ! k) ''cr_rw_array'' = Some cr" for k w cr
  proof -
    let ?w' = "map2 (*) w (map (weight_factor ?p) cr)"
    from each [OF that] have eq: "length w = length cr"
      and upd: "data s' ! k = (data s ! k)(''weights'' \<mapsto> ?w')"
      by simp_all
    have "0 \<le> weight_factor ?p (cr ! i) \<and>
               ?w' ! i = w ! i * weight_factor ?p (cr ! i) \<and>
               (0 \<le> w ! i \<longrightarrow> 0 \<le> ?w' ! i) \<and>
               ((1 + delta_gamma_mu ?p * cr ! i) * atm_muon_scale ?p < 0
                  \<longrightarrow> weight_factor ?p (cr ! i) = 0 \<and> ?w' ! i = 0)"
      if i: "i < length w" for i
    proof -
      have nth: "?w' ! i = w ! i * weight_factor ?p (cr ! i)" using i eq by simp
      have pos: "0 \<le> weight_factor ?p (cr ! i)"
        by (simp add: weight_factor_eq clip_floor)
      have zero: "weight_factor ?p (cr ! i) = 0"
        if "(1 + delta_gamma_mu ?p * cr ! i) * atm_muon_scale ?p < 0"
        using that by (simp add: weight_factor_eq clip_floor)
      show ?thesis using nth pos zero by simp
    qed
    then show ?thesis using upd eq by simp
  qed
  then show "\<exists>s'. apply_function s = Inr s' \<and>
      (\<forall>k<length (data s). \<forall>w cr.
         (data s ! k) ''weights'' = Some w \<and> (data s ! k) ''cr_rw_array'' = Some cr \<longrightarrow>
         (\<exists>w'. (data s' ! k) ''weights'' = Some w' \<and> length w' = length w \<and>
            (\<forall>i<length w.
               0 \<le> weight_factor ?p (cr ! i) \<and>
               w' ! i = w ! i * weight_factor ?p (cr ! i) \<and>
               (0 \<le> w ! i \<longrightarrow> 0 \<le> w' ! i) \<and>
               ((1 + delta_gamma_mu ?p * cr ! i) * atm_muon_scale ?p < 0
                  \<longrightarrow> weight_factor ?p (cr ! i) = 0 \<and> w' ! i = 0))))"
    using run by blast
qed

theorem weight_application_clamps_witness:
  "list_all batch_ready (data scenario5_stage) \<and>
   (1 + delta_gamma_mu (stage_params scenario5_stage) * 3) *
     atm_muon_scale (stage_params scenario5_stage) < 0 \<and>
   (\<exists>s'. apply_function scenario5_stage = Inr s' \<and>
      (\<exists>w'. (data s' ! 0) ''weights'' = Some w' \<and> w' ! 0 = 0))"
proof -
  let ?p = "stage_params scenario5_stage"
  have ready: "list_all batch_ready (data scenario5_stage)"
    by (simp add: scenario5_stage_def batch_ready_def)
  have w: "(data scenario5_stage ! 0) ''weights'' = Some [7]"
    and cr: "(data scenario5_stage ! 0) ''cr_rw_array'' = Some [3]"
    by (simp_all add: scenario5_stage_def)
  have neg: "(1 + delta_gamma_mu ?p * 3) * atm_muon_scale ?p < 0"
    by (simp add: scenario5_stage_def)
  from weight_application_clamps [of scenario5_stage] ready
  obtain s' where run: "apply_function scenario5_stage = Inr s'"
    and each: "\<forall>k<length (data scenario5_stage). \<forall>w cr.
         (data scenario5_stage ! k) ''weights'' = Some w \<and>
         (data scenario5_stage ! k) ''cr_rw_array'' = Some cr \<longrightarrow>
         (\<exists>w'. (data s' ! k) ''weights'' = Some w' \<and> length w' = length w \<and>
            (\<forall>i<length w.
               0 \<le> weight_factor ?p (cr ! i) \<and>
               w' ! i = w ! i * weight_factor ?p (cr ! i) \<and>
               (0 \<le> w ! i \<longrightarrow> 0 \<le> w' ! i) \<and>
               ((1 + delta_gamma_mu ?p * cr ! i) * atm_muon_scale ?p < 0
                  \<longrightarrow> weight_factor ?p (cr ! i) = 0 \<and> w' ! i = 0)))"
    by blast
  have "0 < length (data scenario5_stage)" by (simp add: scenario5_stage_def)
  with each w cr obtain w' where w': "(data s' ! 0) ''weights'' = Some w'"
    and v: "\<forall>i<length [7::real].
               ((1 + delta_gamma_mu ?p * [3] ! i) * atm_muon_scale ?p < 0
                  \<longrightarrow> weight_factor ?p ([3] ! i) = 0 \<and> w' ! i = 0)"
    by blast
  from v neg have "w' ! 0 = 0" by simp
  with ready neg run w' show ?thesis by blast
qed

text \<open>
  C9: in a stage whose batches are all ready, weight application leaves \<^verbatim>\<open>rw_array\<close> and
  \<^verbatim>\<open>cr_rw_array\<close> of every batch as they were, and a second application with the same
  parameters succeeds and multiplies again: after two applications each weight is the
  prior weight times the square of the clamped factor. In scenario 4 the weight goes from
  \<open>10\<close> to \<open>24\<close> and then to \<open>57.6\<close>, so the operation is not idempotent on the weights.
\<close>

theorem weight_application_compounds:
  "(list_all batch_ready (data s) \<longrightarrow>
    (\<exists>s1 s2. apply_function s = Inr s1 \<and> apply_function s1 = Inr s2 \<and>
      length (data s1) = length (data s) \<and> length (data s2) = length (data s) \<and>
      (\<forall>k<length (data s).
         (data s1 ! k) ''rw_array'' = (data s ! k) ''rw_array'' \<and>
         (data s1 ! k) ''cr_rw_array'' = (data s ! k) ''cr_rw_array'' \<and>
         (data s2 ! k) ''rw_array'' = (data s ! k) ''rw_array'' \<and>
         (data s2 ! k) ''cr_rw_array'' = (data s ! k) ''cr_rw_array'' \<and>
         (\<forall>w cr.
            (data s ! k) ''weights'' = Some w \<and> (data s ! k) ''cr_rw_array'' = Some cr \<longrightarrow>
            (\<exists>w1 w2. (data s1 ! k) ''weights'' = Some w1 \<and> (data s2 ! k) ''weights'' = Some w2 \<and>
               length w1 = length w \<and> length w2 = length w \<and>
               (\<forall>i<length w.
                  w1 ! i = w ! i * weight_factor (stage_params s) (cr ! i) \<and>
                  w2 ! i = w ! i * (weight_factor (stage_params s) (cr ! i))\<^sup>2)))))) \<and>
   apply_function scenario4_stage =
     Inr (scenario4_stage\<lparr>data := [[''weights'' \<mapsto> [24.0], ''cr_rw_array'' \<mapsto> [0.3]]]\<rparr>) \<and>
   apply_function (scenario4_stage\<lparr>data := [[''weights'' \<mapsto> [24.0], ''cr_rw_array'' \<mapsto> [0.3]]]\<rparr>) =
     Inr (scenario4_stage\<lparr>data := [[''weights'' \<mapsto> [57.6], ''cr_rw_array'' \<mapsto> [0.3]]]\<rparr>)"
proof (intro conjI impI)
  let ?p = "stage_params s"
  assume "list_all batch_ready (data s)"
  then have ready: "\<forall>c\<in>set (data s). batch_ready c"
    by (simp add: list_all_iff)
  then obtain s1 where run1: "apply_function s = Inr s1"
    and par1: "stage_params s1 = ?p"
    and len1: "length (data s1) = length (data s)"
    and each1: "\<And>k w cr. k < length (data s) \<Longrightarrow> (data s ! k) ''weights'' = Some w \<Longrightarrow>
           (data s ! k) ''cr_rw_array'' = Some cr \<Longrightarrow>
           length w = length cr \<and>
           data s1 ! k = (data s ! k)(''weights'' \<mapsto> map2 (*) w (map (weight_factor ?p) cr))"
    by (rule apply_function_ready) blast
  have ready1: "\<forall>c\<in>set (data s1). batch_ready c"
    using ready run1 by (rule apply_function_keeps_ready)
  then obtain s2 where run2: "apply_function s1 = Inr s2"
    and len2: "length (data s2) = length (data s1)"
    and each2: "\<And>k w cr. k < length (data s1) \<Longrightarrow> (data s1 ! k) ''weights'' = Some w \<Longrightarrow>
           (data s1 ! k) ''cr_rw_array'' = Some cr \<Longrightarrow>
           length w = length cr \<and>
           data s2 ! k = (data s1 ! k)(''weights'' \<mapsto> map2 (*) w (map (weight_factor (stage_params s1)) cr))"
    by (rule apply_function_ready) blast
  have batch: "(data s1 ! k) ''rw_array'' = (data s ! k) ''rw_array'' \<and>
         (data s1 ! k) ''cr_rw_array'' = (data s ! k) ''cr_rw_array'' \<and>
         (data s2 ! k) ''rw_array'' = (data s ! k) ''rw_array'' \<and>
         (data s2 ! k) ''cr_rw_array'' = (data s ! k) ''cr_rw_array'' \<and>
         (\<forall>w cr.
            (data s ! k) ''weights'' = Some w \<and> (data s ! k) ''cr_rw_array'' = Some cr \<longrightarrow>
            (\<exists>w1 w2. (data s1 ! k) ''weights'' = Some w1 \<and> (data s2 ! k) ''weights'' = Some w2 \<and>
               length w1 = length w \<and> length w2 = length w \<and>
               (\<forall>i<length w.
                  w1 ! i = w ! i * weight_factor ?p (cr ! i) \<and>
                  w2 ! i = w ! i * (weight_factor ?p (cr ! i))\<^sup>2)))"
    if k: "k < length (data s)" for k
  proof -
    have "batch_ready (data s ! k)" using ready k by simp
    then obtain w cr where w: "(data s ! k) ''weights'' = Some w"
      and cr: "(data s ! k) ''cr_rw_array'' = Some cr" and eq: "length w = length cr"
      by (rule batch_readyE)
    let ?f = "map (weight_factor ?p) cr"
    let ?w1 = "map2 (*) w ?f"
    let ?w2 = "map2 (*) ?w1 ?f"
    have d1: "data s1 ! k = (data s ! k)(''weights'' \<mapsto> ?w1)"
      using each1 [OF k w cr] by simp
    have k1: "k < length (data s1)" using k len1 by simp
    have w1: "(data s1 ! k) ''weights'' = Some ?w1"
      and cr1: "(data s1 ! k) ''cr_rw_array'' = Some cr"
      using d1 cr by simp_all
    have d2: "data s2 ! k = (data s1 ! k)(''weights'' \<mapsto> ?w2)"
      using each2 [OF k1 w1 cr1] par1 by simp
    have vals: "?w1 ! i = w ! i * weight_factor ?p (cr ! i) \<and>
        ?w2 ! i = w ! i * (weight_factor ?p (cr ! i))\<^sup>2" if "i < length w" for i
      using that eq by (simp add: power2_eq_square)
    show ?thesis using d1 d2 w cr eq vals by simp
  qed
  show "\<exists>s1 s2. apply_function s = Inr s1 \<and> apply_function s1 = Inr s2 \<and>
      length (data s1) = length (data s) \<and> length (data s2) = length (data s) \<and>
      (\<forall>k<length (data s).
         (data s1 ! k) ''rw_array'' = (data s ! k) ''rw_array'' \<and>
         (data s1 ! k) ''cr_rw_array'' = (data s ! k) ''cr_rw_array'' \<and>
         (data s2 ! k) ''rw_array'' = (data s ! k) ''rw_array'' \<and>
         (data s2 ! k) ''cr_rw_array'' = (data s ! k) ''cr_rw_array'' \<and>
         (\<forall>w cr.
            (data s ! k) ''weights'' = Some w \<and> (data s ! k) ''cr_rw_array'' = Some cr \<longrightarrow>
            (\<exists>w1 w2. (data s1 ! k) ''weights'' = Some w1 \<and> (data s2 ! k) ''weights'' = Some w2 \<and>
               length w1 = length w \<and> length w2 = length w \<and>
               (\<forall>i<length w.
                  w1 ! i = w ! i * weight_factor (stage_params s) (cr ! i) \<and>
                  w2 ! i = w ! i * (weight_factor (stage_params s) (cr ! i))\<^sup>2))))"
    using run1 run2 len1 len2 batch by (intro exI [of _ s1] exI [of _ s2]) simp
next
  show "apply_function scenario4_stage =
     Inr (scenario4_stage\<lparr>data := [[''weights'' \<mapsto> [24.0], ''cr_rw_array'' \<mapsto> [0.3]]]\<rparr>)"
    by (simp add: scenario4_stage_def apply_function_def apply_container_def imul_def
        weight_factor_def clip_def fun_upd_twist)
next
  show "apply_function (scenario4_stage\<lparr>data := [[''weights'' \<mapsto> [24.0], ''cr_rw_array'' \<mapsto> [0.3]]]\<rparr>) =
     Inr (scenario4_stage\<lparr>data := [[''weights'' \<mapsto> [57.6], ''cr_rw_array'' \<mapsto> [0.3]]]\<rparr>)"
    by (simp add: scenario4_stage_def apply_function_def apply_container_def imul_def
        weight_factor_def clip_def fun_upd_twist)
qed

theorem weight_application_compounds_witness:
  "list_all batch_ready (data scenario4_stage) \<and>
   (\<exists>s1 s2 w1 w2. apply_function scenario4_stage = Inr s1 \<and> apply_function s1 = Inr s2 \<and>
      (data s1 ! 0) ''cr_rw_array'' = Some [0.3] \<and> (data s2 ! 0) ''cr_rw_array'' = Some [0.3] \<and>
      (data s1 ! 0) ''weights'' = Some w1 \<and> (data s2 ! 0) ''weights'' = Some w2 \<and>
      w1 ! 0 = 24 \<and> w2 ! 0 = 57.6)"
proof -
  let ?s = scenario4_stage
  let ?p = "stage_params scenario4_stage"
  have ready: "list_all batch_ready (data ?s)"
    by (simp add: scenario4_stage_def batch_ready_def)
  have w: "(data ?s ! 0) ''weights'' = Some [10]"
    and cr: "(data ?s ! 0) ''cr_rw_array'' = Some [0.3]"
    and k: "0 < length (data ?s)"
    by (simp_all add: scenario4_stage_def)
  have f: "weight_factor ?p 0.3 = 2.4"
    by (simp add: scenario4_stage_def weight_factor_def clip_def)
  from weight_application_compounds [of ?s] ready
  obtain s1 s2 where run1: "apply_function ?s = Inr s1" and run2: "apply_function s1 = Inr s2"
    and each: "\<forall>k<length (data ?s).
         (data s1 ! k) ''rw_array'' = (data ?s ! k) ''rw_array'' \<and>
         (data s1 ! k) ''cr_rw_array'' = (data ?s ! k) ''cr_rw_array'' \<and>
         (data s2 ! k) ''rw_array'' = (data ?s ! k) ''rw_array'' \<and>
         (data s2 ! k) ''cr_rw_array'' = (data ?s ! k) ''cr_rw_array'' \<and>
         (\<forall>w cr.
            (data ?s ! k) ''weights'' = Some w \<and> (data ?s ! k) ''cr_rw_array'' = Some cr \<longrightarrow>
            (\<exists>w1 w2. (data s1 ! k) ''weights'' = Some w1 \<and> (data s2 ! k) ''weights'' = Some w2 \<and>
               length w1 = length w \<and> length w2 = length w \<and>
               (\<forall>i<length w.
                  w1 ! i = w ! i * weight_factor ?p (cr ! i) \<and>
                  w2 ! i = w ! i * (weight_factor ?p (cr ! i))\<^sup>2)))"
    by blast
  from each k cr have cr1: "(data s1 ! 0) ''cr_rw_array'' = Some [0.3]"
    and cr2: "(data s2 ! 0) ''cr_rw_array'' = Some [0.3]"
    by simp_all
  from each k w cr obtain w1 w2 where w1: "(data s1 ! 0) ''weights'' = Some w1"
    and w2: "(data s2 ! 0) ''weights'' = Some w2"
    and v: "\<forall>i<length [10::real].
                  w1 ! i = [10] ! i * weight_factor ?p ([0.3] ! i) \<and>
                  w2 ! i = [10] ! i * (weight_factor ?p ([0.3] ! i))\<^sup>2"
    by blast
  from v f have "w1 ! 0 = 24" and "w2 ! 0 = 57.6"
    by (simp_all add: power2_eq_square)
  with ready run1 run2 cr1 cr2 w1 w2 show ?thesis by blast
qed


section \<open>Properties of setup\<close>

subsection \<open>The scenario inputs, evaluated\<close>

lemma bare_true_coszen: "bare_variable ''true_coszen'' = ''coszen''"
  by (simp add: bare_variable_def)

lemma coszen_in_file: "sublist ''coszen'' ''muon_coszen_unc.txt''"
  by code_simp

lemma sanitize_scenario1: "sanitize [2, 0, 4] = Inr [2, 4, 4]"
  by (simp add: sanitize.simps zero_indices_def)

lemma padded_scenario1:
  "padded_table scenario1_table = Inr ([0, 0.1, 0.5, 0.9, 1], [2, 2, 4, 4, 4])"
  by (simp add: padded_table_def scenario1_table_def sanitize_scenario1 pad_table_def)

lemma load_and_fit_scenario1:
  assumes "delta_gamma_mu_file p = ''muon_coszen_unc.txt''"
    and "delta_gamma_mu_spline_kind p = ''linear''"
  shows "load_and_fit interp1d_linear scenario_files p = Inr scenario1_curve"
  using assms
  by (simp add: load_and_fit_def scenario_files_def padded_scenario1 interp1d_linear_def
      scenario1_curve_def)

lemma spline_scenario1:
  "make_prim_unc_spline interp1d_linear scenario_files scenario_params =
     (Inr scenario1_curve, [''muon_coszen_unc.txt''])"
proof -
  have "load_and_fit interp1d_linear scenario_files scenario_params = Inr scenario1_curve"
    by (rule load_and_fit_scenario1) (simp_all add: scenario_params_def)
  moreover have "delta_gamma_mu_variable scenario_params = ''true_coszen''"
    and "delta_gamma_mu_file scenario_params = ''muon_coszen_unc.txt''"
    by (simp_all add: scenario_params_def)
  ultimately show ?thesis
    by (simp add: make_prim_unc_spline_def bare_true_coszen coszen_in_file)
qed

subsection \<open>Centering\<close>

lemma sum_list_centre:
  assumes "a \<noteq> []"
  shows "sum_list (map (\<lambda>x. x - sum_list a / real (length a)) a) = 0"
proof -
  have "sum_list (map (\<lambda>x. x - sum_list a / real (length a)) a) =
      sum_list a - real (length a) * (sum_list a / real (length a))"
    by (simp add: sum_list_subtractf sum_list_triv)
  also have "\<dots> = 0" using assms by simp
  finally show ?thesis .
qed

lemma mean_centre: "a \<noteq> [] \<Longrightarrow> mean (centre a) = Some 0"
  by (simp add: mean_def centre_def sum_list_centre)

lemma setup_containers_nth:
  "setup_containers f v cs = Inr cs' \<Longrightarrow>
   length cs' = length cs \<and> (\<forall>k<length cs. setup_container f v (cs ! k) = Inr (cs' ! k))"
proof (induction cs arbitrary: cs')
  case Nil
  then show ?case by simp
next
  case (Cons c cs)
  from Cons.prems obtain c1 cs1 where c1: "setup_container f v c = Inr c1"
    and cs1: "setup_containers f v cs = Inr cs1" and eq: "cs' = c1 # cs1"
    by (auto split: sum.splits)
  from Cons.IH [OF cs1] c1 eq show ?case
    by (auto simp: nth_Cons split: nat.splits)
qed

lemma setup_container_arrays:
  assumes "setup_container f v c = Inr c'"
  obtains rw where "c' ''rw_array'' = Some rw" and "c' ''cr_rw_array'' = Some (centre rw)"
  using assms by (auto simp: setup_container_def split: option.splits sum.splits)

lemma setup_function_data:
  assumes "setup_function interp1d genfromtxt s = Inr s'"
  obtains f where "setup_containers f (delta_gamma_mu_variable (stage_params s)) (data s) = Inr (data s')"
  using assms by (auto simp: setup_function_def split: sum.splits)


text \<open>
  C3, as stated, fails for a batch without events: setup succeeds and caches the empty
  \<^verbatim>\<open>cr_rw_array\<close>, whose mean is \<open>0.0 / 0\<close>, not a number and so not \<open>0.0\<close>.
\<close>

theorem empty_batch_counterexample:
  "map_sum id data (setup_function interp1d_linear scenario_files empty_batch_stage) =
     Inr [[''true_coszen'' \<mapsto> [], ''weights'' \<mapsto> [], ''rw_array'' \<mapsto> [],
           ''cr_rw_array'' \<mapsto> []]] \<and>
   mean [] = None \<and> mean [] \<noteq> Some 0"
proof -
  have p: "stage_params empty_batch_stage = scenario_params"
    and d: "data empty_batch_stage = [[''true_coszen'' \<mapsto> [], ''weights'' \<mapsto> []]]"
    by (simp_all add: empty_batch_stage_def)
  have v: "delta_gamma_mu_variable scenario_params = ''true_coszen''"
    by (simp add: scenario_params_def)
  show ?thesis
    by (simp add: setup_function_def p d v spline_scenario1 setup_container_def
        centre_def mean_def)
qed

text \<open>
  C3, amended: after a successful setup every batch holds \<^verbatim>\<open>rw_array\<close> and
  \<^verbatim>\<open>cr_rw_array = rw_array - norm\<close> with \<open>norm = mean rw_array\<close>, and for every batch with
  at least one event the mean of \<^verbatim>\<open>cr_rw_array\<close> is exactly \<open>0\<close> (in exact arithmetic).
\<close>

theorem setup_centres:
  "setup_function interp1d genfromtxt s = Inr s' \<longrightarrow>
   length (data s') = length (data s) \<and>
   (\<forall>k<length (data s). \<exists>rw.
      (data s' ! k) ''rw_array'' = Some rw \<and>
      (data s' ! k) ''cr_rw_array'' = Some (centre rw) \<and>
      (rw \<noteq> [] \<longrightarrow>
         mean rw = Some (sum_list rw / real (length rw)) \<and>
         centre rw = map (\<lambda>x. x - sum_list rw / real (length rw)) rw \<and>
         mean (centre rw) = Some 0))"
proof
  assume "setup_function interp1d genfromtxt s = Inr s'"
  then obtain f where
    run: "setup_containers f (delta_gamma_mu_variable (stage_params s)) (data s) = Inr (data s')"
    by (rule setup_function_data)
  have len: "length (data s') = length (data s)"
    and each: "\<And>k. k < length (data s) \<Longrightarrow>
      setup_container f (delta_gamma_mu_variable (stage_params s)) (data s ! k) = Inr (data s' ! k)"
    using setup_containers_nth [OF run] by auto
  have "\<exists>rw. (data s' ! k) ''rw_array'' = Some rw \<and>
      (data s' ! k) ''cr_rw_array'' = Some (centre rw) \<and>
      (rw \<noteq> [] \<longrightarrow>
         mean rw = Some (sum_list rw / real (length rw)) \<and>
         centre rw = map (\<lambda>x. x - sum_list rw / real (length rw)) rw \<and>
         mean (centre rw) = Some 0)" if "k < length (data s)" for k
  proof -
    from each [OF that] obtain rw where rw: "(data s' ! k) ''rw_array'' = Some rw"
      and cr: "(data s' ! k) ''cr_rw_array'' = Some (centre rw)"
      by (rule setup_container_arrays)
    have "mean rw = Some (sum_list rw / real (length rw)) \<and>
         centre rw = map (\<lambda>x. x - sum_list rw / real (length rw)) rw \<and>
         mean (centre rw) = Some 0" if "rw \<noteq> []"
      using that mean_centre [OF that] by (simp add: mean_def centre_def)
    with rw cr show ?thesis by blast
  qed
  with len show "length (data s') = length (data s) \<and>
   (\<forall>k<length (data s). \<exists>rw.
      (data s' ! k) ''rw_array'' = Some rw \<and>
      (data s' ! k) ''cr_rw_array'' = Some (centre rw) \<and>
      (rw \<noteq> [] \<longrightarrow>
         mean rw = Some (sum_list rw / real (length rw)) \<and>
         centre rw = map (\<lambda>x. x - sum_list rw / real (length rw)) rw \<and>
         mean (centre rw) = Some 0))"
    by blast
qed

theorem setup_centres_witness:
  "\<exists>s'. setup_function interp1d_linear scenario_files two_event_stage = Inr s' \<and>
     (data s' ! 0) ''rw_array'' = Some [3, 4] \<and>
     (data s' ! 0) ''cr_rw_array'' = Some [- 0.5, 0.5] \<and>
     mean [- 0.5, 0.5] = Some 0"
proof -
  let ?c = "[''true_coszen'' \<mapsto> [0.3, 0.7], ''weights'' \<mapsto> [1, 1],
             ''rw_array'' \<mapsto> [3, 4], ''cr_rw_array'' \<mapsto> [- 0.5, 0.5 :: real]]"
  let ?s' = "two_event_stage\<lparr>data := [?c], prim_unc_spline := Some scenario1_curve\<rparr>"
  have p: "stage_params two_event_stage = scenario_params"
    and d: "data two_event_stage = [[''true_coszen'' \<mapsto> [0.3, 0.7], ''weights'' \<mapsto> [1, 1]]]"
    by (simp_all add: two_event_stage_def)
  have v: "delta_gamma_mu_variable scenario_params = ''true_coszen''"
    by (simp add: scenario_params_def)
  have e: "eval_curve scenario1_curve [3 / 10, 7 / 10] = Inr [3, 4]"
    by (simp add: scenario1_curve_def)
  have c: "centre [3, 4] = [- (1 / 2), 1 / 2]"
    by (simp add: centre_def mean_def)
  have run: "setup_function interp1d_linear scenario_files two_event_stage = Inr ?s'"
    by (simp add: setup_function_def p d v spline_scenario1 setup_container_def e c
        del: eval_curve.simps)
  have k: "0 < length (data two_event_stage)" by (simp add: two_event_stage_def)
  from setup_centres [of interp1d_linear scenario_files two_event_stage ?s'] run k
  obtain rw where rw: "(data ?s' ! 0) ''rw_array'' = Some rw"
    and m: "rw \<noteq> [] \<longrightarrow> mean (centre rw) = Some 0"
    and cr: "(data ?s' ! 0) ''cr_rw_array'' = Some (centre rw)"
    by blast
  from rw have rw_eq: "rw = [3, 4]" by simp
  from cr have "centre rw = [- 0.5, 0.5]" by simp
  with m rw_eq have "mean [- 0.5, 0.5] = Some 0" by simp
  with run show ?thesis by simp
qed


section \<open>Properties of the name validation\<close>

text \<open>
  The last piece of a split at \<^verbatim>\<open>'true_'\<close> is the text after the last occurrence of the
  marker, and the whole string when the marker does not occur. The marker cannot overlap
  itself, so the scan from the left misses no occurrence.
\<close>

lemma split_str_nonempty: "split_str sep s \<noteq> []"
  by (induction sep s rule: split_str.induct) (simp_all add: Let_def)

lemma split_str_no_occurrence:
  "sep \<noteq> [] \<Longrightarrow> \<not> sublist sep s \<Longrightarrow> split_str sep s = [s]"
proof (induction s)
  case Nil
  then show ?case by simp
next
  case (Cons c cs)
  from Cons.prems have np: "\<not> prefix sep (c # cs)" and ns: "\<not> sublist sep cs"
    by (auto simp: sublist_Cons_right)
  from Cons.IH [OF Cons.prems(1) ns] np show ?case by simp
qed

lemma split_str_occurrence:
  "sep \<noteq> [] \<Longrightarrow> sublist sep s \<Longrightarrow> tl (split_str sep s) \<noteq> []"
proof (induction s)
  case Nil
  then show ?case by simp
next
  case (Cons c cs)
  show ?case
  proof (cases "prefix sep (c # cs)")
    case True
    then show ?thesis by (simp add: split_str_nonempty)
  next
    case False
    with Cons.prems have "sublist sep cs" by (simp add: sublist_Cons_right)
    from Cons.IH [OF Cons.prems(1) this] False show ?thesis by (simp add: Let_def)
  qed
qed

lemma marker_border:
  assumes "prefix ''true_'' (pre @ ''true_'' @ r)"
  shows "pre = [] \<or> length ''true_'' \<le> length pre"
proof (cases pre)
  case Nil
  then show ?thesis by simp
next
  case p1: (Cons a1 q1)
  show ?thesis
  proof (cases q1)
    case Nil
    with p1 assms show ?thesis by simp
  next
    case p2: (Cons a2 q2)
    show ?thesis
    proof (cases q2)
      case Nil
      with p1 p2 assms show ?thesis by simp
    next
      case p3: (Cons a3 q3)
      show ?thesis
      proof (cases q3)
        case Nil
        with p1 p2 p3 assms show ?thesis by simp
      next
        case p4: (Cons a4 q4)
        show ?thesis
        proof (cases q4)
          case Nil
          with p1 p2 p3 p4 assms show ?thesis by simp
        next
          case (Cons a5 q5)
          with p1 p2 p3 p4 show ?thesis by simp
        qed
      qed
    qed
  qed
qed

lemma last_split_after:
  assumes sep: "sep \<noteq> []"
    and border: "\<And>p q. prefix sep (p @ sep @ q) \<Longrightarrow> p = [] \<or> length sep \<le> length p"
  shows "last (split_str sep (pre @ sep @ r)) = last (split_str sep r)"
proof (induction pre rule: length_induct)
  case (1 pre)
  show ?case
  proof (cases pre)
    case Nil
    obtain s0 sep' where s: "sep = s0 # sep'" using sep by (cases sep) auto
    have p: "prefix sep (s0 # (sep' @ r))" by (simp add: s)
    have d: "drop (length sep - 1) (sep' @ r) = r" by (simp add: s)
    have "split_str sep (s0 # (sep' @ r)) = [] # split_str sep r"
      using p d by simp
    moreover have "sep @ r = s0 # (sep' @ r)" by (simp add: s)
    ultimately have "split_str sep (sep @ r) = [] # split_str sep r" by simp
    then show ?thesis using Nil by (simp add: split_str_nonempty)
  next
    case (Cons c pre')
    show ?thesis
    proof (cases "prefix sep (pre @ sep @ r)")
      case True
      with border [OF True] Cons have long: "length sep \<le> length pre" by simp
      then have d: "drop (length sep - 1) (pre' @ sep @ r) = drop (length sep - 1) pre' @ sep @ r"
        using Cons by simp
      have "length (drop (length sep - 1) pre') < length pre" using Cons by simp
      with 1 have "last (split_str sep (drop (length sep - 1) pre' @ sep @ r)) =
          last (split_str sep r)" by blast
      with True Cons d show ?thesis by (simp add: split_str_nonempty)
    next
      case False
      let ?pieces = "split_str sep (pre' @ sep @ r)"
      have "sublist sep (pre' @ sep @ r)"
        unfolding sublist_def by blast
      with sep have two: "tl ?pieces \<noteq> []" by (rule split_str_occurrence)
      have "length pre' < length pre" using Cons by simp
      with 1 have ih: "last ?pieces = last (split_str sep r)" by blast
      have "last ((c # hd ?pieces) # tl ?pieces) = last (tl ?pieces)" using two by simp
      also have "\<dots> = last ?pieces" using two by (simp add: last_tl)
      finally show ?thesis using False Cons ih by (simp add: Let_def)
    qed
  qed
qed

lemma bare_variable_after_last:
  assumes "\<not> sublist ''true_'' r"
  shows "bare_variable (pre @ ''true_'' @ r) = r"
proof -
  have "last (split_str ''true_'' (pre @ ''true_'' @ r)) = last (split_str ''true_'' r)"
    by (rule last_split_after) (simp, rule marker_border)
  also have "split_str ''true_'' r = [r]"
    using assms by (intro split_str_no_occurrence) simp_all
  finally show ?thesis unfolding bare_variable_def by simp
qed

lemma bare_variable_no_marker:
  "\<not> sublist ''true_'' v \<Longrightarrow> bare_variable v = v"
  by (simp add: bare_variable_def split_str_no_occurrence)

lemma last_occurrence:
  "sep \<noteq> [] \<Longrightarrow> sublist sep v \<Longrightarrow> \<exists>pre r. v = pre @ sep @ r \<and> \<not> sublist sep r"
proof (induction v)
  case Nil
  then show ?case by simp
next
  case (Cons c cs)
  show ?case
  proof (cases "sublist sep cs")
    case True
    from Cons.IH [OF Cons.prems(1) True] obtain pre r
      where "cs = pre @ sep @ r" and "\<not> sublist sep r" by blast
    then have "c # cs = (c # pre) @ sep @ r \<and> \<not> sublist sep r" by simp
    then show ?thesis by blast
  next
    case False
    with Cons.prems have "prefix sep (c # cs)" by (simp add: sublist_Cons_right)
    then obtain r where r: "c # cs = sep @ r" by (auto simp: prefix_def)
    with Cons.prems(1) have "suffix r cs"
      by (cases sep) (auto simp: suffix_def)
    then have "\<not> sublist sep r" using False
      by (meson sublist_order.order.trans suffix_imp_sublist)
    with r have "c # cs = [] @ sep @ r \<and> \<not> sublist sep r" by simp
    then show ?thesis by blast
  qed
qed

lemma coszen_no_marker: "\<not> sublist ''true_'' ''coszen''"
  by code_simp

lemma bare_variable_coszen_iff:
  "bare_variable v = ''coszen'' \<longleftrightarrow> v = ''coszen'' \<or> (\<exists>pre. v = pre @ ''true_coszen'')"
proof
  assume b: "bare_variable v = ''coszen''"
  show "v = ''coszen'' \<or> (\<exists>pre. v = pre @ ''true_coszen'')"
  proof (cases "sublist ''true_'' v")
    case False
    then show ?thesis using b by (simp add: bare_variable_no_marker)
  next
    case True
    then obtain pre r where v: "v = pre @ ''true_'' @ r" and r: "\<not> sublist ''true_'' r"
      using last_occurrence [of "''true_''" v] by auto
    from b have "r = ''coszen''" unfolding v bare_variable_after_last [OF r] .
    then show ?thesis using v by simp
  qed
next
  assume "v = ''coszen'' \<or> (\<exists>pre. v = pre @ ''true_coszen'')"
  then show "bare_variable v = ''coszen''"
  proof
    assume "v = ''coszen''"
    then show ?thesis using bare_variable_no_marker [OF coszen_no_marker] by simp
  next
    assume "\<exists>pre. v = pre @ ''true_coszen''"
    then obtain pre where "v = pre @ ''true_'' @ ''coszen''" by auto
    then show ?thesis using bare_variable_after_last [OF coszen_no_marker, of pre] by simp
  qed
qed


lemma strip_leading_prefix_coszen:
  assumes "strip_leading_prefix v = ''coszen''"
  shows "v = ''coszen'' \<or> v = ''true_coszen''"
proof (cases "prefix ''true_'' v")
  case True
  then obtain r where v: "v = ''true_'' @ r" by (auto simp: prefix_def)
  with assms True have "r = ''coszen''" by (simp add: strip_leading_prefix_def)
  with v show ?thesis by simp
next
  case False
  with assms show ?thesis by (simp add: strip_leading_prefix_def)
qed

lemma validation_passes:
  assumes "bare_variable (delta_gamma_mu_variable p) = ''coszen''"
    and "sublist ''coszen'' (delta_gamma_mu_file p)"
  shows "make_prim_unc_spline interp1d genfromtxt p =
    (load_and_fit interp1d genfromtxt p, [delta_gamma_mu_file p])"
  using assms by (simp add: make_prim_unc_spline_def)

text \<open>
  C7, as stated, fails: the name \<^verbatim>\<open>muon_true_coszen\<close> has no leading \<^verbatim>\<open>true_\<close>, so stripping a
  leading marker leaves it as it is, different from \<^verbatim>\<open>coszen\<close>; yet nothing is raised and the
  curve is built from the file.
\<close>

theorem marker_inside_name_counterexample:
  "strip_leading_prefix ''muon_true_coszen'' \<noteq> ''coszen'' \<and>
   make_prim_unc_spline interp1d_linear scenario_files
     (scenario_params\<lparr>delta_gamma_mu_variable := ''muon_true_coszen''\<rparr>) =
     (Inr scenario1_curve, [''muon_coszen_unc.txt''])"
proof -
  let ?p = "scenario_params\<lparr>delta_gamma_mu_variable := ''muon_true_coszen''\<rparr>"
  have f: "delta_gamma_mu_file ?p = ''muon_coszen_unc.txt''"
    and k: "delta_gamma_mu_spline_kind ?p = ''linear''"
    and v: "delta_gamma_mu_variable ?p = ''muon_true_coszen''"
    by (simp_all add: scenario_params_def)
  have b: "bare_variable ''muon_true_coszen'' = ''coszen''"
    by (simp add: bare_variable_def)
  have "make_prim_unc_spline interp1d_linear scenario_files ?p =
      (load_and_fit interp1d_linear scenario_files ?p, [delta_gamma_mu_file ?p])"
    by (rule validation_passes) (simp_all only: v b f coszen_in_file)
  then have "make_prim_unc_spline interp1d_linear scenario_files ?p =
      (Inr scenario1_curve, [''muon_coszen_unc.txt''])"
    by (simp only: load_and_fit_scenario1 [OF f k] f)
  moreover have "strip_leading_prefix ''muon_true_coszen'' \<noteq> ''coszen''"
    by (simp add: strip_leading_prefix_def)
  ultimately show ?thesis by blast
qed

text \<open>
  C7, amended: for every variable name whose text after the last occurrence of \<^verbatim>\<open>true_\<close>
  (the whole name when there is none) is not \<^verbatim>\<open>coszen\<close>, that is, every name that is neither
  \<^verbatim>\<open>coszen\<close> nor ends in \<^verbatim>\<open>true_coszen\<close>, curve construction raises \<^verbatim>\<open>ValueError\<close> whatever
  the loader and the file hold, and opens no resource. \<^verbatim>\<open>true_energy\<close> is such a name.
\<close>

theorem unsupported_variable_raises:
  "(bare_variable (delta_gamma_mu_variable p) \<noteq> ''coszen'' \<longrightarrow>
      make_prim_unc_spline interp1d genfromtxt p = (Inl ValueError, [])) \<and>
   (bare_variable v = ''coszen'' \<longleftrightarrow> v = ''coszen'' \<or> (\<exists>pre. v = pre @ ''true_coszen'')) \<and>
   bare_variable ''true_energy'' = ''energy''"
proof (intro conjI impI)
  assume "bare_variable (delta_gamma_mu_variable p) \<noteq> ''coszen''"
  then show "make_prim_unc_spline interp1d genfromtxt p = (Inl ValueError, [])"
    by (simp add: make_prim_unc_spline_def)
next
  show "bare_variable v = ''coszen'' \<longleftrightarrow> v = ''coszen'' \<or> (\<exists>pre. v = pre @ ''true_coszen'')"
    by (rule bare_variable_coszen_iff)
next
  show "bare_variable ''true_energy'' = ''energy''"
    by (simp add: bare_variable_def)
qed

theorem unsupported_variable_raises_witness:
  "bare_variable ''true_energy'' \<noteq> ''coszen'' \<and>
   make_prim_unc_spline interp1d_linear scenario_files
     (scenario_params\<lparr>delta_gamma_mu_variable := ''true_energy''\<rparr>) = (Inl ValueError, [])"
proof -
  let ?p = "scenario_params\<lparr>delta_gamma_mu_variable := ''true_energy''\<rparr>"
  have v: "delta_gamma_mu_variable ?p = ''true_energy''" by simp
  have b: "bare_variable ''true_energy'' \<noteq> ''coszen''" by (simp add: bare_variable_def)
  from unsupported_variable_raises [of ?p interp1d_linear scenario_files] b
  have "make_prim_unc_spline interp1d_linear scenario_files ?p = (Inl ValueError, [])"
    unfolding v by blast
  with b show ?thesis by blast
qed

text \<open>
  C8: when the file identifier does not contain \<^verbatim>\<open>coszen\<close>, curve construction raises
  \<^verbatim>\<open>ValueError\<close> and opens no resource, whatever the variable name; with the variable
  \<^verbatim>\<open>true_coszen\<close> and the file \<^verbatim>\<open>muon_coszen_unc.txt\<close> both checks pass and the result is that
  of reading and fitting the file.
\<close>

theorem file_name_check:
  "(\<not> sublist ''coszen'' (delta_gamma_mu_file p) \<longrightarrow>
      make_prim_unc_spline interp1d genfromtxt p = (Inl ValueError, [])) \<and>
   (delta_gamma_mu_variable p = ''true_coszen'' \<and>
    delta_gamma_mu_file p = ''muon_coszen_unc.txt'' \<longrightarrow>
      make_prim_unc_spline interp1d genfromtxt p =
        (load_and_fit interp1d genfromtxt p, [''muon_coszen_unc.txt'']))"
proof (intro conjI impI)
  assume "\<not> sublist ''coszen'' (delta_gamma_mu_file p)"
  then show "make_prim_unc_spline interp1d genfromtxt p = (Inl ValueError, [])"
    by (simp add: make_prim_unc_spline_def)
next
  assume a: "delta_gamma_mu_variable p = ''true_coszen'' \<and>
    delta_gamma_mu_file p = ''muon_coszen_unc.txt''"
  have "make_prim_unc_spline interp1d genfromtxt p =
      (load_and_fit interp1d genfromtxt p, [delta_gamma_mu_file p])"
    by (rule validation_passes) (simp_all only: a bare_true_coszen coszen_in_file)
  then show "make_prim_unc_spline interp1d genfromtxt p =
        (load_and_fit interp1d genfromtxt p, [''muon_coszen_unc.txt''])"
    by (simp only: a)
qed

theorem file_name_check_witness:
  "\<not> sublist ''coszen'' ''muon_energy_unc.txt'' \<and>
   make_prim_unc_spline interp1d_linear scenario_files
     (scenario_params\<lparr>delta_gamma_mu_file := ''muon_energy_unc.txt''\<rparr>) = (Inl ValueError, []) \<and>
   make_prim_unc_spline interp1d_linear scenario_files scenario_params =
     (Inr scenario1_curve, [''muon_coszen_unc.txt''])"
proof -
  let ?p = "scenario_params\<lparr>delta_gamma_mu_file := ''muon_energy_unc.txt''\<rparr>"
  have n: "\<not> sublist ''coszen'' ''muon_energy_unc.txt''" by code_simp
  have f: "delta_gamma_mu_file ?p = ''muon_energy_unc.txt''" by simp
  from file_name_check [of ?p interp1d_linear scenario_files] n
  have bad: "make_prim_unc_spline interp1d_linear scenario_files ?p = (Inl ValueError, [])"
    unfolding f by blast
  have v: "delta_gamma_mu_variable scenario_params = ''true_coszen''"
    and g: "delta_gamma_mu_file scenario_params = ''muon_coszen_unc.txt''"
    and k: "delta_gamma_mu_spline_kind scenario_params = ''linear''"
    by (simp_all add: scenario_params_def)
  from file_name_check [of scenario_params interp1d_linear scenario_files] v g
  have "make_prim_unc_spline interp1d_linear scenario_files scenario_params =
      (load_and_fit interp1d_linear scenario_files scenario_params, [''muon_coszen_unc.txt''])"
    by blast
  then have good: "make_prim_unc_spline interp1d_linear scenario_files scenario_params =
      (Inr scenario1_curve, [''muon_coszen_unc.txt''])"
    by (simp only: load_and_fit_scenario1 [OF g k])
  from n bad good show ?thesis by blast
qed

text \<open>
  C10: the names \<^verbatim>\<open>muon_true_coszen\<close> and \<^verbatim>\<open>truetrue_coszen\<close>, which stripping a leading
  \<^verbatim>\<open>true_\<close> does not turn into \<^verbatim>\<open>coszen\<close>, and the plain name \<^verbatim>\<open>coszen\<close> all have the bare
  variable \<^verbatim>\<open>coszen\<close> and pass the validation when the file name contains \<^verbatim>\<open>coszen\<close>. The
  bare variable is the text after the last \<^verbatim>\<open>true_\<close> anywhere in the name, and the name
  itself when it holds no \<^verbatim>\<open>true_\<close>; every name accepted after stripping a leading marker
  is accepted by the code as well.
\<close>

theorem marker_anywhere_accepted:
  "bare_variable ''muon_true_coszen'' = ''coszen'' \<and>
   bare_variable ''truetrue_coszen'' = ''coszen'' \<and>
   bare_variable ''coszen'' = ''coszen'' \<and>
   strip_leading_prefix ''muon_true_coszen'' \<noteq> ''coszen'' \<and>
   strip_leading_prefix ''truetrue_coszen'' \<noteq> ''coszen'' \<and>
   (\<not> sublist ''true_'' r \<longrightarrow> bare_variable (pre @ ''true_'' @ r) = r) \<and>
   (\<not> sublist ''true_'' v \<longrightarrow> bare_variable v = v) \<and>
   (strip_leading_prefix v = ''coszen'' \<longrightarrow> bare_variable v = ''coszen'') \<and>
   ((delta_gamma_mu_variable p = ''muon_true_coszen'' \<or>
     delta_gamma_mu_variable p = ''truetrue_coszen'' \<or>
     delta_gamma_mu_variable p = ''coszen'') \<and>
    sublist ''coszen'' (delta_gamma_mu_file p) \<longrightarrow>
      make_prim_unc_spline interp1d genfromtxt p =
        (load_and_fit interp1d genfromtxt p, [delta_gamma_mu_file p]))"
proof -
  have b1: "bare_variable ''muon_true_coszen'' = ''coszen''"
    and b2: "bare_variable ''truetrue_coszen'' = ''coszen''"
    and b3: "bare_variable ''coszen'' = ''coszen''"
    by (simp_all add: bare_variable_def)
  have s1: "strip_leading_prefix ''muon_true_coszen'' \<noteq> ''coszen''"
    and s2: "strip_leading_prefix ''truetrue_coszen'' \<noteq> ''coszen''"
    by (simp_all add: strip_leading_prefix_def)
  have g1: "\<not> sublist ''true_'' r \<longrightarrow> bare_variable (pre @ ''true_'' @ r) = r"
    using bare_variable_after_last by blast
  have g2: "\<not> sublist ''true_'' v \<longrightarrow> bare_variable v = v"
    using bare_variable_no_marker by blast
  have g3: "strip_leading_prefix v = ''coszen'' \<longrightarrow> bare_variable v = ''coszen''"
  proof
    assume "strip_leading_prefix v = ''coszen''"
    then have "v = ''coszen'' \<or> v = ''true_coszen''" by (rule strip_leading_prefix_coszen)
    then show "bare_variable v = ''coszen''" using b3 bare_true_coszen by blast
  qed
  have g4: "(delta_gamma_mu_variable p = ''muon_true_coszen'' \<or>
     delta_gamma_mu_variable p = ''truetrue_coszen'' \<or>
     delta_gamma_mu_variable p = ''coszen'') \<and>
    sublist ''coszen'' (delta_gamma_mu_file p) \<longrightarrow>
      make_prim_unc_spline interp1d genfromtxt p =
        (load_and_fit interp1d genfromtxt p, [delta_gamma_mu_file p])"
  proof
    assume a: "(delta_gamma_mu_variable p = ''muon_true_coszen'' \<or>
     delta_gamma_mu_variable p = ''truetrue_coszen'' \<or>
     delta_gamma_mu_variable p = ''coszen'') \<and>
    sublist ''coszen'' (delta_gamma_mu_file p)"
    then have "bare_variable (delta_gamma_mu_variable p) = ''coszen''"
      using b1 b2 b3 by auto
    with a show "make_prim_unc_spline interp1d genfromtxt p =
        (load_and_fit interp1d genfromtxt p, [delta_gamma_mu_file p])"
      by (intro validation_passes) simp_all
  qed
  from b1 b2 b3 s1 s2 g1 g2 g3 g4 show ?thesis by blast
qed

theorem marker_anywhere_accepted_witness:
  "\<not> sublist ''true_'' ''coszen'' \<and>
   bare_variable (''muon_'' @ ''true_'' @ ''coszen'') = ''coszen'' \<and>
   strip_leading_prefix ''true_coszen'' = ''coszen'' \<and>
   bare_variable ''true_coszen'' = ''coszen'' \<and>
   sublist ''coszen'' ''muon_coszen_unc.txt'' \<and>
   make_prim_unc_spline interp1d_linear scenario_files
     (scenario_params\<lparr>delta_gamma_mu_variable := ''truetrue_coszen''\<rparr>) =
     (Inr scenario1_curve, [''muon_coszen_unc.txt''])"
proof -
  let ?p = "scenario_params\<lparr>delta_gamma_mu_variable := ''truetrue_coszen''\<rparr>"
  note inst = marker_anywhere_accepted [where r = "''coszen''" and pre = "''muon_''"
      and v = "''true_coszen''" and p = ?p and ?interp1d = interp1d_linear
      and genfromtxt = scenario_files]
  have n: "\<not> sublist ''true_'' ''coszen''" by (rule coszen_no_marker)
  have s: "strip_leading_prefix ''true_coszen'' = ''coszen''"
    by (simp add: strip_leading_prefix_def)
  have f: "delta_gamma_mu_file ?p = ''muon_coszen_unc.txt''"
    and k: "delta_gamma_mu_spline_kind ?p = ''linear''"
    and v: "delta_gamma_mu_variable ?p = ''truetrue_coszen''"
    by (simp_all add: scenario_params_def)
  from inst n have w1: "bare_variable (''muon_'' @ ''true_'' @ ''coszen'') = ''coszen''"
    by blast
  from inst s have w2: "bare_variable ''true_coszen'' = ''coszen''"
    by blast
  have c: "sublist ''coszen'' (delta_gamma_mu_file ?p)"
    unfolding f by (rule coszen_in_file)
  from inst v c have "make_prim_unc_spline interp1d_linear scenario_files ?p =
      (load_and_fit interp1d_linear scenario_files ?p, [delta_gamma_mu_file ?p])"
    by blast
  then have w3: "make_prim_unc_spline interp1d_linear scenario_files ?p =
      (Inr scenario1_curve, [''muon_coszen_unc.txt''])"
    by (simp only: load_and_fit_scenario1 [OF f k] f)
  from n w1 s w2 coszen_in_file w3 show ?thesis by blast
qed


section \<open>Properties of the repair of zero entries\<close>

lemma sanitize_result:
  "sanitize ys = Inr zs \<Longrightarrow> 0 \<notin> set zs \<and> length zs = length ys"
proof (induction ys rule: sanitize.induct)
  case (1 ys)
  show ?case
  proof (cases "0 \<in> set ys")
    case False
    with "1.prems" show ?thesis by (simp add: sanitize.simps)
  next
    case True
    with "1.prems" obtain ys' where pass: "fill_zeros (zero_indices ys) ys = Inr ys'"
      and rest: "sanitize ys' = Inr zs"
      by (subst (asm) sanitize.simps) (auto split: sum.splits)
    from "1.IH" [OF True pass rest] fill_zeros_length [OF pass] show ?thesis by simp
  qed
qed

lemma fill_zeros_in_range:
  "\<forall>i\<in>set is. i + 1 < length ys \<Longrightarrow> \<exists>zs. fill_zeros is ys = Inr zs"
  by (induction "is" arbitrary: ys) simp_all

lemma sanitize_succeeds:
  "ys \<noteq> [] \<Longrightarrow> last ys \<noteq> 0 \<Longrightarrow> \<exists>zs. sanitize ys = Inr zs \<and> last zs = last ys"
proof (induction ys rule: sanitize.induct)
  case (1 ys)
  show ?case
  proof (cases "0 \<in> set ys")
    case False
    then show ?thesis by (simp add: sanitize.simps)
  next
    case True
    have n: "length ys - 1 < length ys" using "1.prems"(1) by simp
    have lastnz: "ys ! (length ys - 1) \<noteq> 0"
      using "1.prems" by (simp add: last_conv_nth)
    have "\<forall>i\<in>set (zero_indices ys). i + 1 < length ys"
    proof
      fix i assume "i \<in> set (zero_indices ys)"
      then have "i < length ys" and "ys ! i = 0" by (simp_all add: zero_indices_set)
      with lastnz have "i \<noteq> length ys - 1" by auto
      with \<open>i < length ys\<close> show "i + 1 < length ys" by simp
    qed
    then obtain ys' where pass: "fill_zeros (zero_indices ys) ys = Inr ys'"
      using fill_zeros_in_range by blast
    have len: "length ys' = length ys" using pass by (rule fill_zeros_length)
    have ne: "ys' \<noteq> []" using len "1.prems"(1) by auto
    have "ys' ! (length ys - 1) = ys ! (length ys - 1)"
      using fill_pass_nth [OF pass n] lastnz by simp
    then have l: "last ys' = last ys"
      using len by (simp add: last_conv_nth [OF ne] last_conv_nth [OF "1.prems"(1)])
    from "1.IH" [OF True pass ne] l "1.prems"(2)
    obtain zs where "sanitize ys' = Inr zs" and "last zs = last ys'" by auto
    with True pass l show ?thesis by (simp add: sanitize.simps)
  qed
qed

lemma fill_zeros_append:
  "fill_zeros (is @ js) ys =
     (case fill_zeros is ys of Inl e \<Rightarrow> Inl e | Inr zs \<Rightarrow> fill_zeros js zs)"
  by (induction "is" arbitrary: ys) simp_all

lemma fill_zeros_error: "fill_zeros is ys = Inl e \<Longrightarrow> e = IndexError"
  by (induction "is" arbitrary: ys) (auto split: if_splits)

lemma zero_indices_last:
  assumes "ys \<noteq> []" and "last ys = 0"
  shows "zero_indices ys = filter (\<lambda>i. ys ! i = 0) [0..<length ys - 1] @ [length ys - 1]"
proof -
  obtain n where n: "length ys = Suc n" using assms(1) by (cases ys) auto
  have "ys ! n = 0" using assms n by (simp add: last_conv_nth)
  then show ?thesis by (simp add: zero_indices_def n)
qed

lemma fill_pass_last_zero:
  assumes "ys \<noteq> []" and "last ys = 0"
  shows "fill_zeros (zero_indices ys) ys = Inl IndexError"
proof (cases "fill_zeros (filter (\<lambda>i. ys ! i = 0) [0..<length ys - 1]) ys")
  case (Inl e)
  then have "e = IndexError" by (rule fill_zeros_error)
  with Inl show ?thesis
    by (simp add: zero_indices_last [OF assms] fill_zeros_append)
next
  case (Inr zs)
  then have "length zs = length ys" by (rule fill_zeros_length)
  with Inr assms(1) show ?thesis
    by (simp add: zero_indices_last [OF assms] fill_zeros_append)
qed

lemma sanitize_last_zero:
  assumes "ys \<noteq> []" and "last ys = 0"
  shows "sanitize ys = Inl IndexError"
proof -
  have "0 \<in> set ys" using assms by (metis last_in_set)
  then show ?thesis
    by (simp add: sanitize.simps fill_pass_last_zero [OF assms])
qed


text \<open>
  C4: one pass over the table replaces every entry that is exactly \<open>0\<close> by the entry at the
  next higher index and leaves the others; the passes are repeated while a zero remains,
  so a result has no zero and the length of the input, and there is a result whenever the
  last entry is not zero. \<open>[0, 0, 4]\<close> takes two passes. For the table of scenario 1 the
  zero at \<open>x = 0.5\<close> becomes \<open>4\<close> and the padded table is
  \<open>[(0, 2), (0.1, 2), (0.5, 4), (0.9, 4), (1, 4)]\<close>.
\<close>

theorem zero_forward_fill:
  "(fill_zeros (zero_indices ys) ys = Inr zs \<longrightarrow>
      length zs = length ys \<and>
      (\<forall>i<length ys. (ys ! i = 0 \<longrightarrow> i + 1 < length ys) \<and>
         zs ! i = (if ys ! i = 0 then ys ! (i + 1) else ys ! i))) \<and>
   sanitize ys =
     (if 0 \<in> set ys
      then (case fill_zeros (zero_indices ys) ys of Inl e \<Rightarrow> Inl e | Inr ys' \<Rightarrow> sanitize ys')
      else Inr ys) \<and>
   (sanitize ys = Inr zs' \<longrightarrow> 0 \<notin> set zs' \<and> length zs' = length ys) \<and>
   (ys \<noteq> [] \<and> last ys \<noteq> 0 \<longrightarrow> (\<exists>zs. sanitize ys = Inr zs)) \<and>
   fill_zeros (zero_indices [0, 0, 4]) [0, 0, 4] = Inr [0, 4, 4] \<and>
   sanitize [0, 0, 4] = Inr [4, 4, 4] \<and>
   sanitize (map snd scenario1_table) = Inr [2, 4, 4] \<and>
   padded_table scenario1_table = Inr ([0, 0.1, 0.5, 0.9, 1], [2, 2, 4, 4, 4])"
proof -
  have pass: "fill_zeros (zero_indices ys) ys = Inr zs \<longrightarrow>
      length zs = length ys \<and>
      (\<forall>i<length ys. (ys ! i = 0 \<longrightarrow> i + 1 < length ys) \<and>
         zs ! i = (if ys ! i = 0 then ys ! (i + 1) else ys ! i))"
  proof
    assume run: "fill_zeros (zero_indices ys) ys = Inr zs"
    have "(ys ! i = 0 \<longrightarrow> i + 1 < length ys) \<and>
         zs ! i = (if ys ! i = 0 then ys ! (i + 1) else ys ! i)" if i: "i < length ys" for i
    proof -
      have "i + 1 < length ys" if "ys ! i = 0"
        using fill_zeros_bound [OF run, of i] that i by (simp add: zero_indices_set)
      with fill_pass_nth [OF run i] show ?thesis by blast
    qed
    with fill_zeros_length [OF run]
    show "length zs = length ys \<and>
      (\<forall>i<length ys. (ys ! i = 0 \<longrightarrow> i + 1 < length ys) \<and>
         zs ! i = (if ys ! i = 0 then ys ! (i + 1) else ys ! i))"
      by blast
  qed
  have loop: "sanitize ys =
     (if 0 \<in> set ys
      then (case fill_zeros (zero_indices ys) ys of Inl e \<Rightarrow> Inl e | Inr ys' \<Rightarrow> sanitize ys')
      else Inr ys)"
    by (rule sanitize.simps)
  have clean: "sanitize ys = Inr zs' \<longrightarrow> 0 \<notin> set zs' \<and> length zs' = length ys"
    using sanitize_result by blast
  have total: "ys \<noteq> [] \<and> last ys \<noteq> 0 \<longrightarrow> (\<exists>zs. sanitize ys = Inr zs)"
    using sanitize_succeeds by blast
  have e1: "fill_zeros (zero_indices [0, 0, 4]) [0, 0, 4] = Inr [0, 4, 4]"
    by (simp add: zero_indices_def)
  have e2: "sanitize [0, 0, 4] = Inr [4, 4, 4]"
    by (simp add: sanitize.simps zero_indices_def)
  have e3: "sanitize (map snd scenario1_table) = Inr [2, 4, 4]"
    by (simp add: scenario1_table_def sanitize_scenario1)
  from pass loop clean total e1 e2 e3 padded_scenario1 show ?thesis by blast
qed

theorem zero_forward_fill_witness:
  "fill_zeros (zero_indices [2, 0, 4]) [2, 0, 4] = Inr [2, 4, 4] \<and>
   [2, 0, 4] ! 1 = (0 :: real) \<and> [2, 4, 4] ! 1 = [2, 0, 4 :: real] ! 2 \<and>
   [2, 0, 4 :: real] \<noteq> [] \<and> last [2, 0, 4 :: real] \<noteq> 0 \<and>
   sanitize [2, 0, 4] = Inr [2, 4, 4] \<and> 0 \<notin> set [2, 4, 4 :: real]"
proof -
  note inst = zero_forward_fill [where ys = "[2, 0, 4]" and zs = "[2, 4, 4]"
      and zs' = "[2, 4, 4]"]
  have run: "fill_zeros (zero_indices [2, 0, 4]) [2, 0, 4] = Inr [2, 4, 4]"
    by (simp add: zero_indices_def)
  from inst run
  have "\<forall>i<length [2, 0, 4 :: real]. ([2, 0, 4 :: real] ! i = 0 \<longrightarrow> i + 1 < length [2, 0, 4 :: real]) \<and>
      [2, 4, 4 :: real] ! i = (if [2, 0, 4 :: real] ! i = 0 then [2, 0, 4] ! (i + 1) else [2, 0, 4] ! i)"
    by blast
  then have v: "[2, 4, 4] ! 1 = [2, 0, 4 :: real] ! 2" by simp
  have ne: "[2, 0, 4 :: real] \<noteq> [] \<and> last [2, 0, 4 :: real] \<noteq> 0" by simp
  with inst obtain zs where zs: "sanitize [2, 0, 4] = Inr zs" by blast
  have s: "sanitize [2, 0, 4] = Inr [2, 4, 4]" by (rule sanitize_scenario1)
  from inst s have "0 \<notin> set [2, 4, 4 :: real]" by blast
  with run v ne s show ?thesis by simp
qed

text \<open>
  C5, as stated, fails for a table of one row: its only \<open>y\<close> is the last one and is \<open>0\<close>,
  but line 153 raises \<^verbatim>\<open>TypeError\<close> on the number \<^verbatim>\<open>uncdata[1]\<close>, so no entry is read, in
  range or past the end.
\<close>

theorem one_row_table_counterexample:
  "one_row_table \<noteq> [] \<and> snd (last one_row_table) = 0 \<and>
   padded_table one_row_table = Inl TypeError \<and>
   load_and_fit interp1d_linear (\<lambda>file. Inr one_row_table) scenario_params = Inl TypeError"
  by (simp add: one_row_table_def padded_table_def load_and_fit_def)

text \<open>
  C5, amended: for every table of at least two rows whose last \<open>y\<close> is exactly \<open>0\<close>, the
  first pass reads one index past the end: the pass, the repair, the padded table and the
  whole of reading and fitting end in \<^verbatim>\<open>IndexError\<close>, and no curve is built.
\<close>

theorem last_zero_out_of_bounds:
  "2 \<le> length rows \<and> snd (last rows) = 0 \<longrightarrow>
     fill_zeros (zero_indices (map snd rows)) (map snd rows) = Inl IndexError \<and>
     sanitize (map snd rows) = Inl IndexError \<and>
     padded_table rows = Inl IndexError \<and>
     (genfromtxt (delta_gamma_mu_file p) = Inr rows \<longrightarrow>
        load_and_fit interp1d genfromtxt p = Inl IndexError)"
proof
  assume a: "2 \<le> length rows \<and> snd (last rows) = 0"
  then have rows: "rows \<noteq> []" and more: "length rows \<noteq> 1" by auto
  from a rows have ne: "map snd rows \<noteq> []" and z: "last (map snd rows) = 0"
    by (simp_all add: last_map)
  have s: "sanitize (map snd rows) = Inl IndexError"
    using ne z by (rule sanitize_last_zero)
  have t: "padded_table rows = Inl IndexError"
    using more by (simp add: padded_table_def s)
  have "load_and_fit interp1d genfromtxt p = Inl IndexError"
    if "genfromtxt (delta_gamma_mu_file p) = Inr rows"
    using that by (simp add: load_and_fit_def t)
  with fill_pass_last_zero [OF ne z] s t
  show "fill_zeros (zero_indices (map snd rows)) (map snd rows) = Inl IndexError \<and>
     sanitize (map snd rows) = Inl IndexError \<and>
     padded_table rows = Inl IndexError \<and>
     (genfromtxt (delta_gamma_mu_file p) = Inr rows \<longrightarrow>
        load_and_fit interp1d genfromtxt p = Inl IndexError)"
    by blast
qed

theorem last_zero_out_of_bounds_witness:
  "2 \<le> length trailing_zero_table \<and> snd (last trailing_zero_table) = 0 \<and>
   sanitize (map snd trailing_zero_table) = Inl IndexError \<and>
   load_and_fit interp1d_linear (\<lambda>file. Inr trailing_zero_table) scenario_params =
     Inl IndexError"
proof -
  have a: "2 \<le> length trailing_zero_table \<and> snd (last trailing_zero_table) = 0"
    by (simp add: trailing_zero_table_def)
  from last_zero_out_of_bounds [of trailing_zero_table "\<lambda>file. Inr trailing_zero_table"
      scenario_params interp1d_linear] a
  show ?thesis by blast
qed

section \<open>Properties of the padding\<close>

text \<open>The linear interpolation passes through its points.\<close>

lemma linear_at_knot:
  "sorted_wrt (<) (map fst ps) \<Longrightarrow> 2 \<le> length ps \<Longrightarrow> i < length ps \<Longrightarrow>
   linear_at ps (fst (ps ! i)) = Inr (snd (ps ! i))"
proof (induction ps arbitrary: i)
  case Nil
  then show ?case by simp
next
  case (Cons p0 ps')
  obtain x0 y0 where p0: "p0 = (x0, y0)" by (cases p0)
  from Cons.prems(2) obtain p1 rest where ps': "ps' = p1 # rest" by (cases ps') auto
  obtain x1 y1 where p1: "p1 = (x1, y1)" by (cases p1)
  from Cons.prems(1) have lt: "x0 < x1" and later: "\<forall>x\<in>set (map fst rest). x1 < x"
    and srt: "sorted_wrt (<) (map fst ps')"
    by (auto simp: p0 ps' p1)
  show ?case
  proof (cases i)
    case 0
    then show ?thesis using lt by (simp add: p0 ps' p1)
  next
    case (Suc j)
    show ?thesis
    proof (cases j)
      case 0
      with Suc lt show ?thesis by (simp add: p0 ps' p1)
    next
      case (Suc k)
      with \<open>i = Suc j\<close> Cons.prems(3) have k: "k < length rest" by (simp add: ps')
      then have "fst (rest ! k) \<in> set (map fst rest)" by simp
      with later have big: "x1 < fst (rest ! k)" by blast
      have two: "2 \<le> length ps'" using k by (simp add: ps')
      have j: "j < length ps'" using Suc k by (simp add: ps')
      have "linear_at (p0 # ps') (fst (rest ! k)) = linear_at ps' (fst (rest ! k))"
        using big lt by (simp add: p0 ps' p1)
      also have "fst (rest ! k) = fst (ps' ! j)" using Suc by (simp add: ps')
      also have "linear_at ps' (fst (ps' ! j)) = Inr (snd (ps' ! j))"
        using srt two j by (rule Cons.IH)
      finally show ?thesis using \<open>i = Suc j\<close> Suc by (simp add: ps')
    qed
  qed
qed

lemma interp1d_linear_knot_exact: "knot_exact interp1d_linear"
  unfolding knot_exact_def
proof (intro allI impI)
  fix xvals yvals kind f i
  assume a: "interp1d_linear xvals yvals kind = Inr f \<and> length xvals = length yvals \<and>
        sorted_wrt (<) xvals \<and> i < length xvals"
  then have f: "f = linear_at (zip xvals yvals)" and two: "2 \<le> length xvals"
    by (auto simp: interp1d_linear_def split: if_splits)
  from a have len: "length xvals = length yvals" and i: "i < length xvals"
    and srt: "sorted_wrt (<) xvals" by simp_all
  have "linear_at (zip xvals yvals) (fst (zip xvals yvals ! i)) = Inr (snd (zip xvals yvals ! i))"
    by (rule linear_at_knot) (use len i srt two in simp_all)
  then show "f (xvals ! i) = Inr (yvals ! i)" using f len i by simp
qed

lemma pad_table_nonempty:
  "ys \<noteq> [] \<Longrightarrow> pad_table (xs, ys) = Inr (0 # xs @ [1], hd ys # ys @ [last ys])"
  by (cases ys) (simp_all add: pad_table_def)

lemma padded_table_shape:
  assumes "padded_table rows = Inr (xvals, yvals)"
  obtains ys' where "sanitize (map snd rows) = Inr ys'" and "ys' \<noteq> []"
    and "length ys' = length rows"
    and "xvals = 0 # map fst rows @ [1]" and "yvals = hd ys' # ys' @ [last ys']"
proof -
  from assms obtain ys' where s: "sanitize (map snd rows) = Inr ys'"
    and p: "pad_table (map fst rows, ys') = Inr (xvals, yvals)"
    by (auto simp: padded_table_def split: sum.splits if_splits)
  from p have ne: "ys' \<noteq> []" by (auto simp: pad_table_def)
  from p pad_table_nonempty [OF ne, of "map fst rows"]
  have "xvals = 0 # map fst rows @ [1]" and "yvals = hd ys' # ys' @ [last ys']" by simp_all
  moreover have "length ys' = length rows" using sanitize_result [OF s] by simp
  ultimately show thesis using s ne that by blast
qed

text \<open>
  C6: padding puts the point \<open>(0, first y)\<close> before the repaired table and the point
  \<open>(1, last y)\<close> after it (and raises on an empty table). Hence, for an interpolation that
  passes through its points and a table whose padded \<open>x\<close> values increase strictly, the
  curve that is built takes the first repaired \<open>y\<close> at \<open>0\<close> and the last \<open>y\<close> at \<open>1\<close>.
\<close>

theorem boundary_padding:
  "(ys \<noteq> [] \<longrightarrow> pad_table (xs, ys) = Inr (0 # xs @ [1], hd ys # ys @ [last ys])) \<and>
   pad_table (xs, []) = Inl IndexError \<and>
   (knot_exact interp1d \<and> genfromtxt (delta_gamma_mu_file p) = Inr rows \<and>
    sorted_wrt (<) (0 # map fst rows @ [1]) \<and>
    load_and_fit interp1d genfromtxt p = Inr f \<longrightarrow>
      (\<exists>ys'. sanitize (map snd rows) = Inr ys' \<and> ys' \<noteq> [] \<and>
         padded_table rows = Inr (0 # map fst rows @ [1], hd ys' # ys' @ [last ys']) \<and>
         f 0 = Inr (hd ys') \<and> f 1 = Inr (last ys')))"
proof (intro conjI impI)
  assume "ys \<noteq> []"
  then show "pad_table (xs, ys) = Inr (0 # xs @ [1], hd ys # ys @ [last ys])"
    by (rule pad_table_nonempty)
next
  show "pad_table (xs, []) = Inl IndexError" by (simp add: pad_table_def)
next
  assume a: "knot_exact interp1d \<and> genfromtxt (delta_gamma_mu_file p) = Inr rows \<and>
    sorted_wrt (<) (0 # map fst rows @ [1]) \<and>
    load_and_fit interp1d genfromtxt p = Inr f"
  then obtain xvals yvals where t: "padded_table rows = Inr (xvals, yvals)"
    and fit: "interp1d xvals yvals (delta_gamma_mu_spline_kind p) = Inr f"
    by (auto simp: load_and_fit_def split: sum.splits)
  from t obtain ys' where s: "sanitize (map snd rows) = Inr ys'" and ne: "ys' \<noteq> []"
    and len: "length ys' = length rows"
    and xv: "xvals = 0 # map fst rows @ [1]" and yv: "yvals = hd ys' # ys' @ [last ys']"
    by (rule padded_table_shape)
  have leq: "length xvals = length yvals" by (simp add: xv yv len)
  have srt: "sorted_wrt (<) xvals" using a xv by simp
  have knot: "f (xvals ! i) = Inr (yvals ! i)" if "i < length xvals" for i
    using a fit leq srt that unfolding knot_exact_def by blast
  have "f (xvals ! 0) = Inr (yvals ! 0)" by (rule knot) (simp add: xv)
  then have first: "f 0 = Inr (hd ys')" by (simp add: xv yv)
  have "f (xvals ! Suc (length rows)) = Inr (yvals ! Suc (length rows))"
    by (rule knot) (simp add: xv)
  moreover have "xvals ! Suc (length rows) = 1"
    using nth_append_length [of "map fst rows" 1 "[]"] by (simp add: xv)
  moreover have "yvals ! Suc (length rows) = last ys'"
    using nth_append_length [of ys' "last ys'" "[]"] by (simp add: yv len)
  ultimately have final: "f 1 = Inr (last ys')" by simp
  from s ne t xv yv first final
  show "\<exists>ys'. sanitize (map snd rows) = Inr ys' \<and> ys' \<noteq> [] \<and>
         padded_table rows = Inr (0 # map fst rows @ [1], hd ys' # ys' @ [last ys']) \<and>
         f 0 = Inr (hd ys') \<and> f 1 = Inr (last ys')"
    by blast
qed

theorem boundary_padding_witness:
  "knot_exact interp1d_linear \<and>
   scenario_files (delta_gamma_mu_file scenario_params) = Inr scenario1_table \<and>
   sorted_wrt (<) (0 # map fst scenario1_table @ [1]) \<and>
   load_and_fit interp1d_linear scenario_files scenario_params = Inr scenario1_curve \<and>
   pad_table ([0.1, 0.5, 0.9], [2, 4, 4]) = Inr ([0, 0.1, 0.5, 0.9, 1], [2, 2, 4, 4, 4]) \<and>
   scenario1_curve 0 = Inr 2 \<and> scenario1_curve 1 = Inr 4"
proof -
  note inst = boundary_padding [where ys = "[2, 4, 4]" and xs = "[0.1, 0.5, 0.9]"
      and ?interp1d = interp1d_linear and genfromtxt = scenario_files and p = scenario_params
      and rows = scenario1_table and f = scenario1_curve]
  have g: "scenario_files (delta_gamma_mu_file scenario_params) = Inr scenario1_table"
    by (simp add: scenario_files_def scenario_params_def)
  have srt: "sorted_wrt (<) (0 # map fst scenario1_table @ [1])"
    by (simp add: scenario1_table_def)
  have fit: "load_and_fit interp1d_linear scenario_files scenario_params = Inr scenario1_curve"
    by (rule load_and_fit_scenario1) (simp_all add: scenario_params_def)
  have "[2, 4, 4 :: real] \<noteq> []" by simp
  with inst have "pad_table ([0.1, 0.5, 0.9], [2, 4, 4]) =
      Inr (0 # [0.1, 0.5, 0.9] @ [1], hd [2, 4, 4] # [2, 4, 4] @ [last [2, 4, 4]])"
    by blast
  then have pad: "pad_table ([0.1, 0.5, 0.9], [2, 4, 4]) =
      Inr ([0, 0.1, 0.5, 0.9, 1], [2, 2, 4, 4, 4])"
    by simp
  from inst interp1d_linear_knot_exact g srt fit
  obtain ys' where r: "sanitize (map snd scenario1_table) = Inr ys'"
    and v: "scenario1_curve 0 = Inr (hd ys')" "scenario1_curve 1 = Inr (last ys')"
    by blast
  have "sanitize (map snd scenario1_table) = Inr [2, 4, 4]"
    by (simp add: scenario1_table_def sanitize_scenario1)
  with r have "ys' = [2, 4, 4]" by simp
  with v have "scenario1_curve 0 = Inr 2" and "scenario1_curve 1 = Inr 4" by simp_all
  with interp1d_linear_knot_exact g srt fit pad show ?thesis by blast
qed


end
